theory Spec2Isabelle
  imports Main "HOL-Library.AList"
begin

section \<open>Flash-deal cart reservation: the data model\<close>

text \<open>
  The services of the repository (\<open>redisService\<close>, \<open>productService\<close>, \<open>userService\<close>,
  \<open>cartService\<close>, \<open>checkoutService\<close>) are asynchronous JavaScript methods over two
  backends: a Redis client (reservations, with time to live) and MongoDB through mongoose
  (products, users, orders). The embedding threads one value of type \<open>world\<close> through
  every method; a method returns its result, or the error it throws, together with the
  new world. The calls to MongoDB always answer; the calls of the Redis client can be
  delayed and rejected (see \<open>env\<close> below).

  Quantities, stock and prices are JavaScript numbers that the request validation
  restricts to integers; they are \<open>int\<close> here (prices in minor units), unbounded: the
  rounding of numbers beyond \<open>2^53\<close> and the 64-bit range of \<open>INCRBY\<close> are left out.
  The methods are modelled first for a quantity that is a number, the type their JSDoc
  declares (\<open>@param {number} quantity\<close>). The route of \<open>reserveItems\<close> also lets a
  quantity through that is a string of digits; the section on string quantities gives
  \<open>reserveItems\<close> for both.
\<close>

datatype violation =
    QuantityMismatch string int int
  | StockShortfall string int int

text \<open>
  Every \<open>throw new Error(message)\<close> of the services is one constructor, named after the
  message: \<open>'User not found'\<close>, \<open>'Product not found'\<close>, \<open>'Invalid item: ...'\<close>,
  \<open>'Insufficient stock for SKU ... Available: ..., Requested: ...'\<close>, the plain
  \<open>'Insufficient stock'\<close> of \<open>reduceStock\<close>, \<open>'Cannot release more than reserved'\<close>,
  \<open>'Cart is empty'\<close> and \<open>'Checkout validation failed: ...'\<close> with its joined list.
  \<open>BackendError\<close> is a rejected call of the Redis client.
\<close>

datatype error =
    BackendError
  | UserNotFound
  | ProductNotFound
  | InvalidItem
  | InsufficientStock string int int
  | LedgerInsufficientStock
  | OverRelease
  | EmptyCart
  | CheckoutValidationFailed "violation list"

subsection \<open>The Redis store\<close>

text \<open>
  A Redis string key holds a value and an optional absolute expiry time (in seconds);
  the values written by the services are \<open>number.toString()\<close> and read back with
  \<open>parseInt\<close>, so a value is an \<open>int\<close>. The commands are the ones \<open>redisService\<close>
  issues: \<open>GET\<close>, \<open>TTL\<close>, \<open>KEYS\<close>, and \<open>SETEX\<close>, \<open>INCRBY\<close>, \<open>DECRBY\<close>,
  \<open>EXPIRE\<close>, \<open>DEL\<close> queued in a \<open>MULTI\<close> and sent by \<open>exec()\<close> in one round trip.
\<close>

record entry =
  val :: int
  expires_at :: "nat option"

datatype command =
    SetEx string nat int
  | IncrBy string int
  | DecrBy string int
  | Expire string nat
  | Del string

record item =
  sku :: string
  quantity :: int

record order_item = item +
  productId :: nat
  price :: int

record cart_item = order_item +
  name :: string
  totalPrice :: int

record cart =
  userId :: string
  items :: "cart_item list"
  totalItems :: int
  totalAmount :: int

text \<open>
  A product is a document of the schema \<open>models/Product.js\<close>: \<open>name\<close>, \<open>sku\<close>
  (\<open>unique: true\<close>, so the collection is a map from the sku), \<open>totalStock\<close>,
  \<open>price\<close>, \<open>isActive\<close>, and the \<open>_id\<close> that \<open>getUserCart\<close> reads. The
  \<open>description\<close> and the timestamps are read by no service and left out. The schema
  types \<open>price\<close> as a \<open>Number\<close> and the validation admits a fraction
  (\<open>isFloat\<close>); here a price is a whole number of minor units.
\<close>

record product =
  product_id :: nat
  product_name :: string
  product_price :: int
  totalStock :: int
  isActive :: bool

text \<open>
  Modelled from the spec: the schema \<open>models/Order.js\<close> is not among the sources. An
  order is the spec's \<open>{orderId, userId, items, totalAmount, status}\<close>; its \<open>orderId\<close>
  is its position in the append-only collection.
\<close>

record order =
  order_userId :: string
  order_items :: "order_item list"
  order_totalAmount :: int
  order_status :: string

text \<open>
  The journal records, in order, every write that reaches a backend and every
  \<open>console.error\<close>; it is how the order of effects is observed.
\<close>

datatype event =
    Exec "command list"
  | OrderSaved nat
  | ProductSaved string int
  | ConsoleError string

text \<open>
  \<open>env\<close> is what the network does to the coming Redis round trips: for each one, the
  seconds that pass before the server handles it and whether the call is answered
  (\<open>True\<close>) or rejected (\<open>False\<close>). A rejected call is one that did not reach the
  server (the connection of \<open>config/redis.js\<close> is down), so nothing of it is applied.
  The other way for \<open>exec()\<close> to fail, a \<open>MULTI\<close> that the server runs and in which
  one command answers with an error while the others are applied, does not occur for the
  commands of this model, whose arguments are integers (a \<open>SETEX\<close> with a time to live
  of 0 apart, see \<open>apply_command\<close>). When the list is used up the
  backend answers at once. \<open>users\<close> is the set of ids for which
  \<open>ObjectId.isValid\<close> holds and an active user document exists.
\<close>

record world =
  redis :: "(string \<times> entry) list"
  clock :: nat
  env :: "(nat \<times> bool) list"
  products :: "string \<rightharpoonup> product"
  users :: "string set"
  orders :: "order list"
  journal :: "event list"

definition live :: "nat \<Rightarrow> entry \<Rightarrow> bool" where
  "live now e = (case expires_at e of None \<Rightarrow> True | Some t \<Rightarrow> now < t)"

definition lookup :: "world \<Rightarrow> string \<Rightarrow> entry option" where
  "lookup w k =
     (case map_of (redis w) k of
        None \<Rightarrow> None
      | Some e \<Rightarrow> if live (clock w) e then Some e else None)"

definition store :: "string \<Rightarrow> entry \<Rightarrow> world \<Rightarrow> world" where
  "store k e w = w\<lparr>redis := AList.update k e (redis w)\<rparr>"

text \<open>
  One command as the Redis server applies it. \<open>INCRBY\<close> and \<open>DECRBY\<close> start from 0 on
  a key that is absent or expired, creating it without expiry, and keep the expiry of a
  live key; \<open>EXPIRE\<close> does nothing to an absent key. Redis rejects \<open>SETEX\<close> with a
  time to live of 0; here such an entry is dead at once, and every theorem that
  reserves assumes a positive time to live.
\<close>

fun apply_command :: "world \<Rightarrow> command \<Rightarrow> world" where
  "apply_command w (SetEx k ttl v) =
     store k \<lparr>val = v, expires_at = Some (clock w + ttl)\<rparr> w"
| "apply_command w (IncrBy k n) =
     (case lookup w k of
        None \<Rightarrow> store k \<lparr>val = n, expires_at = None\<rparr> w
      | Some e \<Rightarrow> store k (e\<lparr>val := val e + n\<rparr>) w)"
| "apply_command w (DecrBy k n) =
     (case lookup w k of
        None \<Rightarrow> store k \<lparr>val = - n, expires_at = None\<rparr> w
      | Some e \<Rightarrow> store k (e\<lparr>val := val e - n\<rparr>) w)"
| "apply_command w (Expire k ttl) =
     (case lookup w k of
        None \<Rightarrow> w
      | Some e \<Rightarrow> store k (e\<lparr>expires_at := Some (clock w + ttl)\<rparr>) w)"
| "apply_command w (Del k) = w\<lparr>redis := AList.delete k (redis w)\<rparr>"

definition round_trip :: "world \<Rightarrow> bool \<times> world" where
  "round_trip w =
     (case env w of
        [] \<Rightarrow> (True, w)
      | (d, ok) # rest \<Rightarrow> (ok, w\<lparr>clock := clock w + d, env := rest\<rparr>))"

definition console_error :: "string \<Rightarrow> world \<Rightarrow> world" where
  "console_error msg w = w\<lparr>journal := journal w @ [ConsoleError msg]\<rparr>"

definition client_get :: "world \<Rightarrow> string \<Rightarrow> (error + int option) \<times> world" where
  "client_get w k =
     (case round_trip w of
        (True, w1) \<Rightarrow> (Inr (map_option val (lookup w1 k)), w1)
      | (False, w1) \<Rightarrow> (Inl BackendError, w1))"

text \<open>\<open>TTL\<close>: -2 for an absent key, -1 for a key without expiry, else the seconds left.\<close>

definition client_ttl :: "world \<Rightarrow> string \<Rightarrow> (error + int) \<times> world" where
  "client_ttl w k =
     (case round_trip w of
        (True, w1) \<Rightarrow>
          (Inr (case lookup w1 k of
                  None \<Rightarrow> - 2
                | Some e \<Rightarrow> (case expires_at e of
                               None \<Rightarrow> - 1
                             | Some t \<Rightarrow> int (t - clock w1))), w1)
      | (False, w1) \<Rightarrow> (Inl BackendError, w1))"

text \<open>
  Redis glob patterns: \<open>*\<close> matches any run of characters, \<open>?\<close> one character. The
  bracket and backslash forms are left out: the only pattern of the services is
  \<open>reservation:<userId>:*\<close> with a user id that is a hexadecimal ObjectId.
\<close>

fun glob :: "string \<Rightarrow> string \<Rightarrow> bool" where
  "glob [] s = (s = [])"
| "glob (p # ps) [] = (p = CHR ''*'' \<and> glob ps [])"
| "glob (p # ps) (c # cs) =
     (if p = CHR ''*'' then glob ps (c # cs) \<or> glob (p # ps) cs
      else if p = CHR ''?'' then glob ps cs
      else p = c \<and> glob ps cs)"

definition client_keys :: "world \<Rightarrow> string \<Rightarrow> (error + string list) \<times> world" where
  "client_keys w pat =
     (case round_trip w of
        (True, w1) \<Rightarrow>
          (Inr (filter (\<lambda>k. lookup w1 k \<noteq> None \<and> glob pat k) (map fst (redis w1))), w1)
      | (False, w1) \<Rightarrow> (Inl BackendError, w1))"

definition client_exec :: "world \<Rightarrow> command list \<Rightarrow> (error + unit) \<times> world" where
  "client_exec w cmds =
     (case round_trip w of
        (True, w1) \<Rightarrow>
          (Inr (), (foldl apply_command w1 cmds)\<lparr>journal := journal w1 @ [Exec cmds]\<rparr>)
      | (False, w1) \<Rightarrow> (Inl BackendError, w1))"

section \<open>redisService\<close>

definition getReservationKey :: "string \<Rightarrow> string \<Rightarrow> string" where
  "getReservationKey uid s = ''reservation:'' @ uid @ '':'' @ s"

definition getReservedStockKey :: "string \<Rightarrow> string" where
  "getReservedStockKey s = ''reserved_stock:'' @ s"

text \<open>
  The quantity is a number here, as the JSDoc of the method has it; \<open>reserveStock_js\<close>
  below takes it as the route of \<open>reserveItems\<close> passes it on.
\<close>

definition reserveStock ::
  "world \<Rightarrow> string \<Rightarrow> string \<Rightarrow> int \<Rightarrow> nat \<Rightarrow> (error + bool) \<times> world" where
  "reserveStock w uid s qty ttlSeconds =
     (let reservationKey = getReservationKey uid s;
          reservedStockKey = getReservedStockKey s
      in case client_get w reservationKey of
           (Inl e, w1) \<Rightarrow> (Inl e, console_error ''Error reserving stock in Redis:'' w1)
         | (Inr existingReservation, w1) \<Rightarrow>
             (let existingQty = (case existingReservation of None \<Rightarrow> 0 | Some v \<Rightarrow> v);
                  newQty = existingQty + qty
              in case client_exec w1
                        [SetEx reservationKey ttlSeconds newQty,
                         IncrBy reservedStockKey qty,
                         Expire reservedStockKey ttlSeconds] of
                   (Inl e, w2) \<Rightarrow> (Inl e, console_error ''Error reserving stock in Redis:'' w2)
                 | (Inr _, w2) \<Rightarrow> (Inr True, w2)))"

definition getReservedQuantity :: "world \<Rightarrow> string \<Rightarrow> string \<Rightarrow> (error + int) \<times> world" where
  "getReservedQuantity w uid s =
     (case client_get w (getReservationKey uid s) of
        (Inl e, w1) \<Rightarrow> (Inr 0, console_error ''Error getting reserved quantity:'' w1)
      | (Inr reserved, w1) \<Rightarrow> (Inr (case reserved of None \<Rightarrow> 0 | Some v \<Rightarrow> v), w1))"

definition getTotalReservedStock :: "world \<Rightarrow> string \<Rightarrow> (error + int) \<times> world" where
  "getTotalReservedStock w s =
     (case client_get w (getReservedStockKey s) of
        (Inl e, w1) \<Rightarrow> (Inr 0, console_error ''Error getting total reserved stock:'' w1)
      | (Inr reserved, w1) \<Rightarrow> (Inr (case reserved of None \<Rightarrow> 0 | Some v \<Rightarrow> v), w1))"

text \<open>
  The tail shared by \<open>cancelReservation\<close> and \<open>releaseReservation\<close>: with a remainder
  the key is written again with the time to live that \<open>TTL\<close> reports, or with 600 when
  that is not positive; without one the key is deleted. The aggregate counter is
  decremented in the same \<open>MULTI\<close>. \<open>label\<close> is the message of the method's \<open>catch\<close>.
\<close>

definition settle ::
  "string \<Rightarrow> world \<Rightarrow> string \<Rightarrow> string \<Rightarrow> int \<Rightarrow> int \<Rightarrow> (error + unit) \<times> world" where
  "settle label w reservationKey reservedStockKey remainingQty takenQty =
     (if remainingQty > 0 then
        (case client_ttl w reservationKey of
           (Inl e, w1) \<Rightarrow> (Inl e, console_error label w1)
         | (Inr ttl, w1) \<Rightarrow>
             (case client_exec w1
                     [SetEx reservationKey (if ttl > 0 then nat ttl else 600) remainingQty,
                      DecrBy reservedStockKey takenQty] of
                (Inl e, w2) \<Rightarrow> (Inl e, console_error label w2)
              | (Inr _, w2) \<Rightarrow> (Inr (), w2)))
      else
        (case client_exec w [Del reservationKey, DecrBy reservedStockKey takenQty] of
           (Inl e, w2) \<Rightarrow> (Inl e, console_error label w2)
         | (Inr _, w2) \<Rightarrow> (Inr (), w2)))"

text \<open>\<open>quantity = null\<close> (the default of an omitted argument) is \<open>None\<close>.\<close>

definition cancelReservation ::
  "world \<Rightarrow> string \<Rightarrow> string \<Rightarrow> int option \<Rightarrow> (error + int) \<times> world" where
  "cancelReservation w uid s qty =
     (let reservationKey = getReservationKey uid s;
          reservedStockKey = getReservedStockKey s
      in case client_get w reservationKey of
           (Inl e, w1) \<Rightarrow> (Inl e, console_error ''Error cancelling reservation:'' w1)
         | (Inr None, w1) \<Rightarrow> (Inr 0, w1)
         | (Inr (Some existingQty), w1) \<Rightarrow>
             (let cancelQty = (case qty of None \<Rightarrow> existingQty | Some q \<Rightarrow> min q existingQty);
                  remainingQty = existingQty - cancelQty
              in case settle ''Error cancelling reservation:'' w1
                        reservationKey reservedStockKey remainingQty cancelQty of
                   (Inl e, w2) \<Rightarrow> (Inl e, w2)
                 | (Inr _, w2) \<Rightarrow> (Inr cancelQty, w2)))"

definition releaseReservation ::
  "world \<Rightarrow> string \<Rightarrow> string \<Rightarrow> int \<Rightarrow> (error + bool) \<times> world" where
  "releaseReservation w uid s qty =
     (let reservationKey = getReservationKey uid s;
          reservedStockKey = getReservedStockKey s
      in case client_get w reservationKey of
           (Inl e, w1) \<Rightarrow> (Inl e, console_error ''Error releasing reservation:'' w1)
         | (Inr None, w1) \<Rightarrow> (Inr False, w1)
         | (Inr (Some existingQty), w1) \<Rightarrow>
             (if existingQty < qty
              then (Inl OverRelease, console_error ''Error releasing reservation:'' w1)
              else case settle ''Error releasing reservation:'' w1
                          reservationKey reservedStockKey (existingQty - qty) qty of
                     (Inl e, w2) \<Rightarrow> (Inl e, w2)
                   | (Inr _, w2) \<Rightarrow> (Inr True, w2)))"

text \<open>
  \<open>String.prototype.split\<close> on one separator character: the segments between the
  separators, empty ones included.
\<close>

fun split_on :: "char \<Rightarrow> string \<Rightarrow> string list" where
  "split_on c [] = [[]]"
| "split_on c (x # xs) =
     (if x = c then [] # split_on c xs
      else (case split_on c xs of
              [] \<Rightarrow> [[x]]
            | seg # segs \<Rightarrow> (x # seg) # segs))"

text \<open>
  \<open>key.split(':')[2]\<close>. A key returned for the pattern \<open>reservation:<userId>:*\<close> has
  at least three segments; for fewer, JavaScript yields \<open>undefined\<close>, here the empty
  string.
\<close>

definition key_sku :: "string \<Rightarrow> string" where
  "key_sku k = (case drop 2 (split_on CHR '':'' k) of [] \<Rightarrow> [] | s # _ \<Rightarrow> s)"

fun collectReservations ::
  "world \<Rightarrow> string list \<Rightarrow> item list \<Rightarrow> (error + item list) \<times> world" where
  "collectReservations w [] reservations = (Inr reservations, w)"
| "collectReservations w (k # keys) reservations =
     (case client_get w k of
        (Inl e, w1) \<Rightarrow> (Inl e, w1)
      | (Inr None, w1) \<Rightarrow> collectReservations w1 keys reservations
      | (Inr (Some q), w1) \<Rightarrow>
          collectReservations w1 keys (reservations @ [\<lparr>sku = key_sku k, quantity = q\<rparr>]))"

definition getUserReservations :: "world \<Rightarrow> string \<Rightarrow> (error + item list) \<times> world" where
  "getUserReservations w uid =
     (case client_keys w (getReservationKey uid ''*'') of
        (Inl e, w1) \<Rightarrow> (Inr [], console_error ''Error getting user reservations:'' w1)
      | (Inr keys, w1) \<Rightarrow>
          (case collectReservations w1 keys [] of
             (Inl e, w2) \<Rightarrow> (Inr [], console_error ''Error getting user reservations:'' w2)
           | (Inr reservations, w2) \<Rightarrow> (Inr reservations, w2)))"

section \<open>userService and productService\<close>

definition userExists :: "world \<Rightarrow> string \<Rightarrow> bool" where
  "userExists w uid = (uid \<in> users w)"

text \<open>\<open>Product.findOne({ sku, isActive: true })\<close>, or \<open>'Product not found'\<close>.\<close>

definition getProductBySku :: "world \<Rightarrow> string \<Rightarrow> error + product" where
  "getProductBySku w s =
     (case products w s of
        None \<Rightarrow> Inl ProductNotFound
      | Some p \<Rightarrow> if isActive p then Inr p else Inl ProductNotFound)"

record stock_check =
  isAvailable :: bool
  availableStock :: int
  stock_total :: int
  reservedStock :: int

definition checkStockAvailability ::
  "world \<Rightarrow> string \<Rightarrow> int \<Rightarrow> (error + stock_check) \<times> world" where
  "checkStockAvailability w s qty =
     (case getProductBySku w s of
        Inl e \<Rightarrow> (Inl e, w)
      | Inr p \<Rightarrow>
          (case getTotalReservedStock w s of
             (Inl e, w1) \<Rightarrow> (Inl e, w1)
           | (Inr reserved, w1) \<Rightarrow>
               (let available = totalStock p - reserved
                in (Inr \<lparr>isAvailable = (available \<ge> qty),
                         availableStock = max 0 available,
                         stock_total = totalStock p,
                         reservedStock = reserved\<rparr>, w1))))"

definition reduceStock :: "world \<Rightarrow> string \<Rightarrow> int \<Rightarrow> (error + product) \<times> world" where
  "reduceStock w s qty =
     (case getProductBySku w s of
        Inl e \<Rightarrow> (Inl e, w)
      | Inr p \<Rightarrow>
          if totalStock p < qty then (Inl LedgerInsufficientStock, w)
          else (let p' = p\<lparr>totalStock := totalStock p - qty\<rparr>
                in (Inr p', w\<lparr>products := (products w)(s \<mapsto> p'),
                              journal := journal w @ [ProductSaved s (totalStock p')]\<rparr>)))"

section \<open>cartService\<close>

text \<open>
  The \<open>for\<close> loop of \<open>reserveItems\<close>, with the list \<open>reservedItems\<close> it has pushed
  when it stops: \<open>None\<close> when every item was reserved, the thrown error otherwise.
  \<open>!sku\<close> is the empty string, \<open>!quantity\<close> is 0.
\<close>

fun reserveLoop ::
  "world \<Rightarrow> string \<Rightarrow> item list \<Rightarrow> nat \<Rightarrow> item list \<Rightarrow> error option \<times> item list \<times> world" where
  "reserveLoop w uid [] ttlSeconds reservedItems = (None, reservedItems, w)"
| "reserveLoop w uid (it # rest) ttlSeconds reservedItems =
     (if sku it = [] \<or> quantity it = 0 \<or> quantity it \<le> 0
      then (Some InvalidItem, reservedItems, w)
      else case checkStockAvailability w (sku it) (quantity it) of
             (Inl e, w1) \<Rightarrow> (Some e, reservedItems, w1)
           | (Inr stockCheck, w1) \<Rightarrow>
               if \<not> isAvailable stockCheck
               then (Some (InsufficientStock (sku it) (availableStock stockCheck) (quantity it)),
                     reservedItems, w1)
               else (case reserveStock w1 uid (sku it) (quantity it) ttlSeconds of
                       (Inl e, w2) \<Rightarrow> (Some e, reservedItems, w2)
                     | (Inr _, w2) \<Rightarrow>
                         reserveLoop w2 uid rest ttlSeconds
                           (reservedItems @ [\<lparr>sku = sku it, quantity = quantity it\<rparr>])))"

text \<open>The \<open>catch\<close> block: one \<open>cancelReservation\<close> per reserved item, its failure logged.\<close>

fun rollback :: "world \<Rightarrow> string \<Rightarrow> item list \<Rightarrow> world" where
  "rollback w uid [] = w"
| "rollback w uid (it # rest) =
     (case cancelReservation w uid (sku it) (Some (quantity it)) of
        (Inl rollbackError, w1) \<Rightarrow> rollback (console_error ''Error during rollback:'' w1) uid rest
      | (Inr _, w1) \<Rightarrow> rollback w1 uid rest)"

definition reserveItems ::
  "world \<Rightarrow> string \<Rightarrow> item list \<Rightarrow> nat \<Rightarrow> (error + item list) \<times> world" where
  "reserveItems w uid its ttlSeconds =
     (if \<not> userExists w uid then (Inl UserNotFound, w)
      else case reserveLoop w uid its ttlSeconds [] of
             (None, reservedItems, w1) \<Rightarrow> (Inr reservedItems, w1)
           | (Some e, reservedItems, w1) \<Rightarrow> (Inl e, rollback w1 uid reservedItems))"

fun cartItems :: "world \<Rightarrow> item list \<Rightarrow> cart_item list \<Rightarrow> cart_item list \<times> world" where
  "cartItems w [] acc = (acc, w)"
| "cartItems w (reservation # rest) acc =
     (case getProductBySku w (sku reservation) of
        Inl e \<Rightarrow> cartItems (console_error ''Error fetching product'' w) rest acc
      | Inr p \<Rightarrow>
          cartItems w rest
            (acc @ [\<lparr>sku = sku reservation, quantity = quantity reservation,
                     productId = product_id p, price = product_price p,
                     name = product_name p,
                     totalPrice = product_price p * quantity reservation\<rparr>]))"

definition getUserCart :: "world \<Rightarrow> string \<Rightarrow> (error + cart) \<times> world" where
  "getUserCart w uid =
     (case getUserReservations w uid of
        (Inl e, w1) \<Rightarrow> (Inl e, w1)
      | (Inr reservations, w1) \<Rightarrow>
          (case cartItems w1 reservations [] of
             (cis, w2) \<Rightarrow>
               (Inr \<lparr>userId = uid, items = cis,
                     totalItems = foldl (\<lambda>sum it. sum + quantity it) 0 cis,
                     totalAmount = foldl (\<lambda>sum it. sum + totalPrice it) 0 cis\<rparr>, w2)))"

section \<open>checkoutService\<close>

fun validateItems ::
  "world \<Rightarrow> string \<Rightarrow> cart_item list \<Rightarrow> violation list \<Rightarrow> (error + violation list) \<times> world" where
  "validateItems w uid [] validationErrors = (Inr validationErrors, w)"
| "validateItems w uid (it # rest) validationErrors =
     (case getReservedQuantity w uid (sku it) of
        (Inl e, w1) \<Rightarrow> (Inl e, w1)
      | (Inr reservedQty, w1) \<Rightarrow>
          (let errs1 = (if reservedQty < quantity it
                        then validationErrors @ [QuantityMismatch (sku it) reservedQty (quantity it)]
                        else validationErrors)
           in case checkStockAvailability w1 (sku it) (quantity it) of
                (Inl e, w2) \<Rightarrow> (Inl e, w2)
              | (Inr stockCheck, w2) \<Rightarrow>
                  validateItems w2 uid rest
                    (if \<not> isAvailable stockCheck
                     then errs1 @ [StockShortfall (sku it) (availableStock stockCheck) (quantity it)]
                     else errs1)))"

fun reduceAll :: "world \<Rightarrow> cart_item list \<Rightarrow> (error + unit) \<times> world" where
  "reduceAll w [] = (Inr (), w)"
| "reduceAll w (it # rest) =
     (case reduceStock w (sku it) (quantity it) of
        (Inl e, w1) \<Rightarrow> (Inl e, w1)
      | (Inr _, w1) \<Rightarrow> reduceAll w1 rest)"

fun releaseAll :: "world \<Rightarrow> string \<Rightarrow> cart_item list \<Rightarrow> (error + unit) \<times> world" where
  "releaseAll w uid [] = (Inr (), w)"
| "releaseAll w uid (it # rest) =
     (case releaseReservation w uid (sku it) (quantity it) of
        (Inl e, w1) \<Rightarrow> (Inl e, w1)
      | (Inr _, w1) \<Rightarrow> releaseAll w1 uid rest)"

definition orderItem :: "cart_item \<Rightarrow> order_item" where
  "orderItem it =
     \<lparr>sku = sku it, quantity = quantity it, productId = productId it, price = price it\<rparr>"

definition saveOrder :: "world \<Rightarrow> order \<Rightarrow> nat \<times> world" where
  "saveOrder w ord =
     (length (orders w),
      w\<lparr>orders := orders w @ [ord], journal := journal w @ [OrderSaved (length (orders w))]\<rparr>)"

record receipt =
  orderId :: nat
  receipt_userId :: string
  receipt_items :: "order_item list"
  receipt_totalAmount :: int

definition processCheckout :: "world \<Rightarrow> string \<Rightarrow> (error + receipt) \<times> world" where
  "processCheckout w uid =
     (if \<not> userExists w uid then (Inl UserNotFound, w)
      else case getUserCart w uid of
             (Inl e, w1) \<Rightarrow> (Inl e, w1)
           | (Inr c, w1) \<Rightarrow>
               if items c = [] then (Inl EmptyCart, w1)
               else (case validateItems w1 uid (items c) [] of
                       (Inl e, w2) \<Rightarrow> (Inl e, w2)
                     | (Inr validationErrors, w2) \<Rightarrow>
                         if validationErrors \<noteq> []
                         then (Inl (CheckoutValidationFailed validationErrors), w2)
                         else (let orderItems = map orderItem (items c);
                                   ord = \<lparr>order_userId = uid, order_items = orderItems,
                                          order_totalAmount = totalAmount c,
                                          order_status = ''completed''\<rparr>
                               in case saveOrder w2 ord of
                                    (oid, w3) \<Rightarrow>
                                      (case reduceAll w3 (items c) of
                                         (Inl e, w4) \<Rightarrow> (Inl e, w4)
                                       | (Inr _, w4) \<Rightarrow>
                                           (case releaseAll w4 uid (items c) of
                                              (Inl e, w5) \<Rightarrow> (Inl e, w5)
                                            | (Inr _, w5) \<Rightarrow>
                                                (Inr \<lparr>orderId = oid, receipt_userId = uid,
                                                      receipt_items = orderItems,
                                                      receipt_totalAmount = totalAmount c\<rparr>,
                                                 w5))))))"

section \<open>String quantities\<close>

text \<open>
  \<open>CartController.reserveItems\<close> hands \<open>req.body.items\<close> to
  \<open>cartService.reserveItems\<close> as the JSON parser built them, and the validation of the
  route, \<open>body('items.*.quantity').isInt({ min: 1 })\<close>, has no \<open>toInt()\<close>: it lets
  the string \<open>"3"\<close> through as it lets the number \<open>3\<close> through, and leaves it a
  string. A quantity of a request item is therefore a number or a string. \<open>Numeral q\<close>
  is the string that spells the integer \<open>q\<close> in decimal, as \<open>toString\<close> below writes
  it (\<open>"3"\<close> is \<open>Numeral 3\<close>); strings of another form (a plus sign, leading zeros)
  are outside the model.
\<close>

datatype jsquantity = Number int | Numeral int

text \<open>
  \<open>Number.prototype.toString\<close> of an integer, and \<open>parseInt\<close> of a string: leading
  blanks are skipped, then an optional sign and the longest run of decimal digits are
  read; \<open>None\<close> is \<open>NaN\<close>, the answer when no digit is found. The hexadecimal prefix
  \<open>0x\<close> is left out.
\<close>

definition digit_char :: "nat \<Rightarrow> char" where
  "digit_char n = ''0123456789'' ! n"

function digits :: "nat \<Rightarrow> string" where
  "digits n = (if n < 10 then [digit_char n] else digits (n div 10) @ [digit_char (n mod 10)])"
  by pat_completeness auto
termination
  by (relation "measure id") auto

definition toString :: "int \<Rightarrow> string" where
  "toString i = (if i < 0 then CHR ''-'' # digits (nat (- i)) else digits (nat i))"

definition is_digit :: "char \<Rightarrow> bool" where
  "is_digit c = (c \<in> set ''0123456789'')"

definition digit_value :: "char \<Rightarrow> nat" where
  "digit_value c = of_char c - 48"

definition decimal :: "string \<Rightarrow> nat" where
  "decimal ds = foldl (\<lambda>n c. 10 * n + digit_value c) 0 ds"

definition unsigned_prefix :: "string \<Rightarrow> int option" where
  "unsigned_prefix s =
     (case takeWhile is_digit s of [] \<Rightarrow> None | ds \<Rightarrow> Some (int (decimal ds)))"

definition parseInt :: "string \<Rightarrow> int option" where
  "parseInt s =
     (case dropWhile (\<lambda>c. c = CHR '' '') s of
        [] \<Rightarrow> None
      | c # cs \<Rightarrow>
          if c = CHR ''-'' then map_option uminus (unsigned_prefix cs)
          else if c = CHR ''+'' then unsigned_prefix cs
          else unsigned_prefix (c # cs))"

text \<open>
  The conversions of JavaScript. \<open>numberOf\<close> is the number that \<open>quantity <= 0\<close>,
  \<open>availableStock >= quantity\<close> and \<open>Math.min(quantity, existingQty)\<close> compare, and
  the integer that Redis reads from the argument of \<open>INCRBY\<close>. \<open>falsy\<close> is
  \<open>!quantity\<close>: the number 0; no numeral is the empty string. \<open>plus_js\<close> is
  \<open>(existingQty + quantity).toString()\<close>: the sum for a number, and for a string the
  concatenation of \<open>existingQty.toString()\<close> and the string. \<open>read_back\<close> is the
  number that every later \<open>parseInt\<close> of the stored value reads, the form in which the
  store of this model keeps a value; the string that \<open>plus_js\<close> builds starts with a
  number, so the case \<open>NaN\<close> is not reached (\<open>parseInt_toString_append\<close>).
\<close>

definition numberOf :: "jsquantity \<Rightarrow> int" where
  "numberOf qty = (case qty of Number q \<Rightarrow> q | Numeral q \<Rightarrow> q)"

definition falsy :: "jsquantity \<Rightarrow> bool" where
  "falsy qty = (case qty of Number q \<Rightarrow> q = 0 | Numeral q \<Rightarrow> False)"

definition plus_js :: "int \<Rightarrow> jsquantity \<Rightarrow> string" where
  "plus_js existingQty qty =
     (case qty of
        Number q \<Rightarrow> toString (existingQty + q)
      | Numeral q \<Rightarrow> toString existingQty @ toString q)"

definition read_back :: "string \<Rightarrow> int" where
  "read_back v = (case parseInt v of None \<Rightarrow> 0 | Some n \<Rightarrow> n)"

text \<open>
  \<open>redisService.reserveStock\<close> with the quantity as it arrives. It differs from
  \<open>reserveStock\<close> above in \<open>newQty\<close> alone; for a number the two agree
  (\<open>reserveStock_js_number\<close>).
\<close>

definition reserveStock_js ::
  "world \<Rightarrow> string \<Rightarrow> string \<Rightarrow> jsquantity \<Rightarrow> nat \<Rightarrow> (error + bool) \<times> world" where
  "reserveStock_js w uid s qty ttlSeconds =
     (let reservationKey = getReservationKey uid s;
          reservedStockKey = getReservedStockKey s
      in case client_get w reservationKey of
           (Inl e, w1) \<Rightarrow> (Inl e, console_error ''Error reserving stock in Redis:'' w1)
         | (Inr existingReservation, w1) \<Rightarrow>
             (let existingQty = (case existingReservation of None \<Rightarrow> 0 | Some v \<Rightarrow> v);
                  newQty = plus_js existingQty qty
              in case client_exec w1
                        [SetEx reservationKey ttlSeconds (read_back newQty),
                         IncrBy reservedStockKey (numberOf qty),
                         Expire reservedStockKey ttlSeconds] of
                   (Inl e, w2) \<Rightarrow> (Inl e, console_error ''Error reserving stock in Redis:'' w2)
                 | (Inr _, w2) \<Rightarrow> (Inr True, w2)))"

record request_item =
  item_sku :: string
  item_quantity :: jsquantity

text \<open>
  \<open>cartService.reserveItems\<close> on request items. \<open>checkStockAvailability\<close> uses the
  quantity in the comparison \<open>availableStock >= quantity\<close> only, and
  \<open>cancelReservation\<close> in \<open>Math.min(quantity, existingQty)\<close> only; both convert a
  string to its number, so they are called here with \<open>numberOf\<close>. The message of
  \<open>'Insufficient stock ...'\<close> prints the quantity, the same digits for the number and
  for the string.
\<close>

fun reserveLoop_js ::
  "world \<Rightarrow> string \<Rightarrow> request_item list \<Rightarrow> nat \<Rightarrow> request_item list \<Rightarrow>
     error option \<times> request_item list \<times> world" where
  "reserveLoop_js w uid [] ttlSeconds reservedItems = (None, reservedItems, w)"
| "reserveLoop_js w uid (it # rest) ttlSeconds reservedItems =
     (if item_sku it = [] \<or> falsy (item_quantity it) \<or> numberOf (item_quantity it) \<le> 0
      then (Some InvalidItem, reservedItems, w)
      else case checkStockAvailability w (item_sku it) (numberOf (item_quantity it)) of
             (Inl e, w1) \<Rightarrow> (Some e, reservedItems, w1)
           | (Inr stockCheck, w1) \<Rightarrow>
               if \<not> isAvailable stockCheck
               then (Some (InsufficientStock (item_sku it) (availableStock stockCheck)
                             (numberOf (item_quantity it))),
                     reservedItems, w1)
               else (case reserveStock_js w1 uid (item_sku it) (item_quantity it) ttlSeconds of
                       (Inl e, w2) \<Rightarrow> (Some e, reservedItems, w2)
                     | (Inr _, w2) \<Rightarrow>
                         reserveLoop_js w2 uid rest ttlSeconds
                           (reservedItems @
                              [\<lparr>item_sku = item_sku it, item_quantity = item_quantity it\<rparr>])))"

fun rollback_js :: "world \<Rightarrow> string \<Rightarrow> request_item list \<Rightarrow> world" where
  "rollback_js w uid [] = w"
| "rollback_js w uid (it # rest) =
     (case cancelReservation w uid (item_sku it) (Some (numberOf (item_quantity it))) of
        (Inl rollbackError, w1) \<Rightarrow>
          rollback_js (console_error ''Error during rollback:'' w1) uid rest
      | (Inr _, w1) \<Rightarrow> rollback_js w1 uid rest)"

definition reserveItems_js ::
  "world \<Rightarrow> string \<Rightarrow> request_item list \<Rightarrow> nat \<Rightarrow> (error + request_item list) \<times> world" where
  "reserveItems_js w uid its ttlSeconds =
     (if \<not> userExists w uid then (Inl UserNotFound, w)
      else case reserveLoop_js w uid its ttlSeconds [] of
             (None, reservedItems, w1) \<Rightarrow> (Inr reservedItems, w1)
           | (Some e, reservedItems, w1) \<Rightarrow> (Inl e, rollback_js w1 uid reservedItems))"

text \<open>The request item whose quantity is the number of an item.\<close>

definition number_item :: "item \<Rightarrow> request_item" where
  "number_item it = \<lparr>item_sku = sku it, item_quantity = Number (quantity it)\<rparr>"

section \<open>Observations\<close>

text \<open>
  What \<open>getReservedQuantity\<close> and \<open>getTotalReservedStock\<close> read when the backend
  answers: the value of the live key, 0 when the key is absent or expired.
\<close>

definition held :: "world \<Rightarrow> string \<Rightarrow> string \<Rightarrow> int" where
  "held w uid s = (case lookup w (getReservationKey uid s) of None \<Rightarrow> 0 | Some e \<Rightarrow> val e)"

definition aggregateReserved :: "world \<Rightarrow> string \<Rightarrow> int" where
  "aggregateReserved w s = (case lookup w (getReservedStockKey s) of None \<Rightarrow> 0 | Some e \<Rightarrow> val e)"

definition hold_live :: "world \<Rightarrow> string \<Rightarrow> string \<Rightarrow> bool" where
  "hold_live w uid s = (lookup w (getReservationKey uid s) \<noteq> None)"

text \<open>
  Time passing with no call in flight.
\<close>

definition elapse :: "nat \<Rightarrow> world \<Rightarrow> world" where
  "elapse d w = w\<lparr>clock := clock w + d\<rparr>"

text \<open>
  The sum of the quantities of the live reservation keys of a sku, over all users: the
  keys \<open>reservation:<userId>:<sku>\<close> of the store (for ids without a colon).
\<close>

definition reservedSum :: "world \<Rightarrow> string \<Rightarrow> int" where
  "reservedSum w s =
     sum_list (map (\<lambda>(k, e). val e)
       (filter (\<lambda>(k, e). live (clock w) e \<and> take 12 k = ''reservation:'' \<and> key_sku k = s)
          (redis w)))"

text \<open>
  The quantity a list of items asks for on one sku.
\<close>

definition reservedQty :: "item list \<Rightarrow> string \<Rightarrow> int" where
  "reservedQty its s = sum_list (map quantity (filter (\<lambda>it. sku it = s) its))"

text \<open>
  What no read changes: the keys, the products, the users and the orders.
\<close>

definition same_data :: "world \<Rightarrow> world \<Rightarrow> bool" where
  "same_data w w' =
     (redis w' = redis w \<and> products w' = products w \<and> users w' = users w \<and> orders w' = orders w)"

text \<open>
  The \<open>totalStock\<close> of the product document of a sku, active or not; 0 without one.
\<close>

definition ledgerStock :: "world \<Rightarrow> string \<Rightarrow> int" where
  "ledgerStock w s = (case products w s of None \<Rightarrow> 0 | Some p \<Rightarrow> totalStock p)"

definition activeProduct :: "world \<Rightarrow> string \<Rightarrow> bool" where
  "activeProduct w s = (case getProductBySku w s of Inl _ \<Rightarrow> False | Inr _ \<Rightarrow> True)"

text \<open>
  The cart line that \<open>getUserCart\<close> builds from a reservation and its product, and the
  lines of a list of reservations: those with an active product, in order.
\<close>

definition cartLine :: "product \<Rightarrow> item \<Rightarrow> cart_item" where
  "cartLine p reservation =
     \<lparr>sku = sku reservation, quantity = quantity reservation,
      productId = product_id p, price = product_price p,
      name = product_name p, totalPrice = product_price p * quantity reservation\<rparr>"

fun cartLines :: "world \<Rightarrow> item list \<Rightarrow> cart_item list" where
  "cartLines w [] = []"
| "cartLines w (reservation # rest) =
     (case getProductBySku w (sku reservation) of
        Inl _ \<Rightarrow> cartLines w rest
      | Inr p \<Rightarrow> cartLine p reservation # cartLines w rest)"

text \<open>
  What one turn of the validation loop of \<open>processCheckout\<close> pushes for a cart item
  when the backend answers: the mismatch of the reserved quantity, then the shortfall of
  the stock.
\<close>

definition itemViolations :: "world \<Rightarrow> string \<Rightarrow> cart_item \<Rightarrow> violation list" where
  "itemViolations w uid it =
     (if held w uid (sku it) < quantity it
      then [QuantityMismatch (sku it) (held w uid (sku it)) (quantity it)] else []) @
     (case getProductBySku w (sku it) of
        Inl _ \<Rightarrow> []
      | Inr p \<Rightarrow>
          if \<not> quantity it \<le> totalStock p - aggregateReserved w (sku it)
          then [StockShortfall (sku it) (max 0 (totalStock p - aggregateReserved w (sku it)))
                  (quantity it)]
          else [])"

text \<open>
  A key is the user's own when either the pattern \<open>reservation:<userId>:*\<close> does not
  match it or it is the reservation key of the user for the sku that
  \<open>getUserReservations\<close> reads off it. A store is tidy for a user when no key occurs
  twice and every key is the user's own. An id is plain when it has no colon and no glob
  character; the keys written for plain ids keep a store tidy.
\<close>

definition own_key :: "string \<Rightarrow> string \<Rightarrow> bool" where
  "own_key uid k =
     (\<not> glob (getReservationKey uid ''*'') k \<or> k = getReservationKey uid (key_sku k))"

definition tidy :: "world \<Rightarrow> string \<Rightarrow> bool" where
  "tidy w uid = (distinct (map fst (redis w)) \<and> list_all (own_key uid) (map fst (redis w)))"

definition plain :: "string \<Rightarrow> bool" where
  "plain s = (CHR '':'' \<notin> set s \<and> CHR ''*'' \<notin> set s \<and> CHR ''?'' \<notin> set s)"

fun command_key :: "command \<Rightarrow> string" where
  "command_key (SetEx k ttl v) = k"
| "command_key (IncrBy k n) = k"
| "command_key (DecrBy k n) = k"
| "command_key (Expire k ttl) = k"
| "command_key (Del k) = k"


section \<open>Sample worlds\<close>

text \<open>
  \<open>shop\<close>: user \<open>u1\<close> holds 5 of the 200 units of sku \<open>A\<close>. \<open>lapsing\<close>: the
  same hold three seconds before its expiry, with five seconds passing before the second
  round trip. \<open>offline\<close>: the next round trip is rejected. \<open>delisted\<close>: the product
  is not active any more.
\<close>

definition shop :: world where
  "shop = \<lparr>redis = [(''reservation:u1:A'', \<lparr>val = 5, expires_at = Some 600\<rparr>),
                    (''reserved_stock:A'', \<lparr>val = 5, expires_at = Some 600\<rparr>)],
           clock = 0, env = [],
           products = [''A'' \<mapsto> \<lparr>product_id = 1, product_name = ''gadget'', product_price = 10,
                                  totalStock = 200, isActive = True\<rparr>],
           users = {''u1'', ''u2''}, orders = [], journal = []\<rparr>"

definition lapsing :: world where
  "lapsing = shop\<lparr>redis := [(''reservation:u1:A'', \<lparr>val = 5, expires_at = Some 3\<rparr>),
                             (''reserved_stock:A'', \<lparr>val = 5, expires_at = Some 3\<rparr>)],
                   env := [(0, True), (5, True)]\<rparr>"



text \<open>
  \<open>flash\<close>: 5 units of \<open>A\<close>, nothing reserved. \<open>sold_out\<close>: all 5 held by
  \<open>u1\<close>, and the next round trip rejected. \<open>two_skus\<close>: 5 units of \<open>A\<close> and one
  of \<open>B\<close>; \<open>flaky\<close>: the same with the fifth round trip rejected. \<open>crowded\<close>:
  \<open>u1\<close> holds 3 of the 5 units of each of \<open>A\<close> and \<open>B\<close>.
\<close>

definition flash :: world where
  "flash = \<lparr>redis = [], clock = 0, env = [],
            products = [''A'' \<mapsto> \<lparr>product_id = 1, product_name = ''gadget'', product_price = 10,
                                   totalStock = 5, isActive = True\<rparr>],
            users = {''u1'', ''u2''}, orders = [], journal = []\<rparr>"

definition sold_out :: world where
  "sold_out = flash\<lparr>redis := [(''reservation:u1:A'', \<lparr>val = 5, expires_at = Some 600\<rparr>),
                               (''reserved_stock:A'', \<lparr>val = 5, expires_at = Some 600\<rparr>)],
                     env := [(0, False)]\<rparr>"

definition two_skus :: world where
  "two_skus = \<lparr>redis = [], clock = 0, env = [],
               products = [''A'' \<mapsto> \<lparr>product_id = 1, product_name = ''gadget'', product_price = 10,
                                      totalStock = 5, isActive = True\<rparr>,
                           ''B'' \<mapsto> \<lparr>product_id = 2, product_name = ''widget'', product_price = 7,
                                      totalStock = 1, isActive = True\<rparr>],
               users = {''u1'', ''u2''}, orders = [], journal = []\<rparr>"

definition flaky :: world where
  "flaky = two_skus\<lparr>env := [(0, True), (0, True), (0, True), (0, True), (0, False)]\<rparr>"

definition crowded :: world where
  "crowded = \<lparr>redis = [(''reservation:u1:A'', \<lparr>val = 3, expires_at = Some 600\<rparr>),
                       (''reserved_stock:A'', \<lparr>val = 3, expires_at = Some 600\<rparr>),
                       (''reservation:u1:B'', \<lparr>val = 3, expires_at = Some 600\<rparr>),
                       (''reserved_stock:B'', \<lparr>val = 3, expires_at = Some 600\<rparr>)],
              clock = 0, env = [],
              products = [''A'' \<mapsto> \<lparr>product_id = 1, product_name = ''gadget'', product_price = 10,
                                     totalStock = 5, isActive = True\<rparr>,
                          ''B'' \<mapsto> \<lparr>product_id = 2, product_name = ''widget'', product_price = 7,
                                     totalStock = 5, isActive = True\<rparr>],
              users = {''u1'', ''u2''}, orders = [], journal = []\<rparr>"


definition boutique :: world where
  "boutique = \<lparr>redis = [], clock = 0, env = [],
               products = [''A'' \<mapsto> \<lparr>product_id = 1, product_name = ''gadget'', product_price = 10,
                                      totalStock = 200, isActive = True\<rparr>,
                           ''B'' \<mapsto> \<lparr>product_id = 2, product_name = ''widget'', product_price = 7,
                                      totalStock = 1, isActive = True\<rparr>],
               users = {''64b7f0c2a1d3e4f5a6b7c8d9''}, orders = [], journal = []\<rparr>"

definition string_batch :: "request_item list" where
  "string_batch = [\<lparr>item_sku = ''A'', item_quantity = Numeral 3\<rparr>,
                   \<lparr>item_sku = ''A'', item_quantity = Numeral 3\<rparr>,
                   \<lparr>item_sku = ''B'', item_quantity = Numeral 3\<rparr>]"

text \<open>
  \<open>colon_shop\<close>: 200 units of each of the products \<open>X\<close> and \<open>X:Y\<close>, nothing
  reserved. \<open>colon_cart\<close>: the same after the user has reserved 5 of each with one call
  of \<open>reserveItems\<close>. \<open>colon_cart_reversed\<close>: the same keys, which \<open>KEYS\<close> lists
  in the opposite order.
\<close>

definition colon_shop :: world where
  "colon_shop =
     \<lparr>redis = [], clock = 0, env = [],
      products = [''X'' \<mapsto> \<lparr>product_id = 1, product_name = ''gadget'', product_price = 10,
                             totalStock = 200, isActive = True\<rparr>,
                  ''X:Y'' \<mapsto> \<lparr>product_id = 2, product_name = ''widget'', product_price = 7,
                               totalStock = 200, isActive = True\<rparr>],
      users = {''64b7f0c2a1d3e4f5a6b7c8d9''}, orders = [], journal = []\<rparr>"

definition colon_cart :: world where
  "colon_cart =
     snd (reserveItems colon_shop ''64b7f0c2a1d3e4f5a6b7c8d9''
            [\<lparr>sku = ''X'', quantity = 5\<rparr>, \<lparr>sku = ''X:Y'', quantity = 5\<rparr>] 600)"

definition colon_cart_reversed :: world where
  "colon_cart_reversed = colon_cart\<lparr>redis := rev (redis colon_cart)\<rparr>"

section \<open>Properties\<close>

subsection \<open>The store under a quiet backend\<close>

lemma key_neq [simp]: "getReservationKey uid s \<noteq> getReservedStockKey s'"
  "getReservedStockKey s' \<noteq> getReservationKey uid s"
  by (simp_all add: getReservationKey_def getReservedStockKey_def)

lemma reservation_key_inj [simp]: "getReservationKey uid s = getReservationKey uid s' \<longleftrightarrow> s = s'"
  by (simp add: getReservationKey_def)

lemma stock_key_inj [simp]: "getReservedStockKey s = getReservedStockKey s' \<longleftrightarrow> s = s'"
  by (simp add: getReservedStockKey_def)

lemma round_trip_quiet: "env w = [] \<Longrightarrow> round_trip w = (True, w)"
  by (simp add: round_trip_def)

lemma client_get_quiet: "env w = [] \<Longrightarrow> client_get w k = (Inr (map_option val (lookup w k)), w)"
  by (simp add: client_get_def round_trip_quiet)

lemma lookup_store:
  "lookup (store k e w) k' = (if k' = k then (if live (clock w) e then Some e else None) else lookup w k')"
  by (auto simp: lookup_def store_def update_conv' split: option.splits)

lemma lookup_delete:
  "lookup (w\<lparr>redis := AList.delete k (redis w)\<rparr>) k' = (if k' = k then None else lookup w k')"
  by (auto simp: lookup_def delete_conv' split: option.splits)

lemma store_fields [simp]:
  "clock (store k e w) = clock w" "env (store k e w) = env w"
  "products (store k e w) = products w" "users (store k e w) = users w"
  "orders (store k e w) = orders w" "journal (store k e w) = journal w"
  by (simp_all add: store_def)

lemma apply_command_fields [simp]:
  "clock (apply_command w c) = clock w" "env (apply_command w c) = env w"
  "products (apply_command w c) = products w" "users (apply_command w c) = users w"
  "orders (apply_command w c) = orders w" "journal (apply_command w c) = journal w"
  by (cases c; simp split: option.splits)+

lemma lookup_journal [simp]: "lookup (w\<lparr>journal := j\<rparr>) k = lookup w k"
  by (simp add: lookup_def split: option.splits)

lemma lookup_live: "lookup w k = Some e \<Longrightarrow> live (clock w) e"
  by (auto simp: lookup_def split: option.splits if_splits)

lemma client_ttl_quiet:
  "env w = [] \<Longrightarrow>
   client_ttl w k =
     (Inr (case lookup w k of None \<Rightarrow> - 2
           | Some e \<Rightarrow> (case expires_at e of None \<Rightarrow> - 1 | Some t \<Rightarrow> int (t - clock w))), w)"
  by (simp add: client_ttl_def round_trip_quiet)

lemma client_exec_quiet:
  "env w = [] \<Longrightarrow>
   client_exec w cmds = (Inr (), (foldl apply_command w cmds)\<lparr>journal := journal w @ [Exec cmds]\<rparr>)"
  by (simp add: client_exec_def round_trip_quiet)

lemma foldl_apply_env [simp]: "env (foldl apply_command w cmds) = env w"
  by (induction cmds arbitrary: w) simp_all

lemma foldl_apply_clock [simp]: "clock (foldl apply_command w cmds) = clock w"
  by (induction cmds arbitrary: w) simp_all

lemma held_journal [simp]: "held (w\<lparr>journal := j\<rparr>) uid s = held w uid s"
  by (simp add: held_def)

lemma aggregate_journal [simp]: "aggregateReserved (w\<lparr>journal := j\<rparr>) s = aggregateReserved w s"
  by (simp add: aggregateReserved_def)

lemma settle_quiet:
  assumes "env w = []" and "lookup w rk = Some e" and "rk \<noteq> ak" and "0 \<le> remaining"
  shows "\<exists>w'. settle label w rk ak remaining taken = (Inr (), w') \<and> env w' = []
           \<and> clock w' = clock w
           \<and> lookup w' rk = (if remaining > 0 then Some (e\<lparr>val := remaining, expires_at := Some (clock w + (case expires_at e of None \<Rightarrow> 600 | Some t \<Rightarrow> t - clock w))\<rparr>) else None)
           \<and> (case lookup w' ak of None \<Rightarrow> 0 | Some a \<Rightarrow> val a)
              = (case lookup w ak of None \<Rightarrow> 0 | Some a \<Rightarrow> val a) - taken
           \<and> (\<forall>k. k \<noteq> rk \<longrightarrow> k \<noteq> ak \<longrightarrow> lookup w' k = lookup w k)
           \<and> products w' = products w \<and> orders w' = orders w \<and> users w' = users w"
  using assms lookup_live[OF assms(2)]
  apply (cases "remaining > 0")
   apply (auto simp: settle_def client_ttl_quiet client_exec_quiet lookup_store lookup_delete live_def split: option.splits dest: lookup_live)
  done

lemma cancelReservation_quiet:
  assumes "env w = []" and "lookup w (getReservationKey uid s) = Some e"
    and "c = (case qty of None \<Rightarrow> val e | Some q \<Rightarrow> min q (val e))"
  shows "\<exists>w'. cancelReservation w uid s qty = (Inr c, w') \<and> env w' = [] \<and> clock w' = clock w
           \<and> lookup w' (getReservationKey uid s) =
               (if val e - c > 0
                then Some (e\<lparr>val := val e - c,
                            expires_at := Some (clock w + (case expires_at e of None \<Rightarrow> 600
                                                           | Some t \<Rightarrow> t - clock w))\<rparr>)
                else None)
           \<and> aggregateReserved w' s = aggregateReserved w s - c
           \<and> (\<forall>k. k \<noteq> getReservationKey uid s \<longrightarrow> k \<noteq> getReservedStockKey s
                  \<longrightarrow> lookup w' k = lookup w k)
           \<and> products w' = products w \<and> orders w' = orders w \<and> users w' = users w"
proof -
  have nonneg: "0 \<le> val e - c"
    by (simp add: assms(3) split: option.splits)
  from settle_quiet[OF assms(1,2) key_neq(1) nonneg, of "''Error cancelling reservation:''" s c]
  obtain w' where st: "settle ''Error cancelling reservation:'' w (getReservationKey uid s)
                         (getReservedStockKey s) (val e - c) c = (Inr (), w')"
    and rest: "env w' = []" "clock w' = clock w"
      "lookup w' (getReservationKey uid s) =
               (if val e - c > 0
                then Some (e\<lparr>val := val e - c,
                            expires_at := Some (clock w + (case expires_at e of None \<Rightarrow> 600
                                                           | Some t \<Rightarrow> t - clock w))\<rparr>)
                else None)"
      "(case lookup w' (getReservedStockKey s) of None \<Rightarrow> 0 | Some a \<Rightarrow> val a)
               = (case lookup w (getReservedStockKey s) of None \<Rightarrow> 0 | Some a \<Rightarrow> val a) - c"
      "\<forall>k. k \<noteq> getReservationKey uid s \<longrightarrow> k \<noteq> getReservedStockKey s
                  \<longrightarrow> lookup w' k = lookup w k"
      "products w' = products w" "orders w' = orders w" "users w' = users w"
    by blast
  have run: "cancelReservation w uid s qty = (Inr c, w')"
    using assms st by (simp add: cancelReservation_def client_get_quiet)
  show ?thesis
    using run rest by (simp add: aggregateReserved_def)
qed

subsection \<open>Cancellation\<close>

text \<open>
  Claim C7. With the backend answering, \<open>cancelReservation\<close> on a pair without a live
  hold returns 0, throws nothing and changes nothing. On a live hold, with the quantity
  omitted it returns the whole held quantity and deletes the reservation key; with a
  quantity \<open>q\<close> it returns \<open>min q held\<close>, leaves \<open>held - min q held\<close> (deleting the key
  when that is 0), and in both cases the aggregate counter of the sku goes down by
  exactly the returned amount.
\<close>

theorem cancelReservation_amount:
  assumes "env w = []"
  shows "(\<not> hold_live w uid s \<longrightarrow> cancelReservation w uid s qty = (Inr 0, w)) \<and>
         (hold_live w uid s \<longrightarrow>
            (\<exists>w'. cancelReservation w uid s None = (Inr (held w uid s), w')
                \<and> held w' uid s = 0 \<and> \<not> hold_live w' uid s
                \<and> aggregateReserved w' s = aggregateReserved w s - held w uid s) \<and>
            (\<forall>q. \<exists>w'. cancelReservation w uid s (Some q) = (Inr (min q (held w uid s)), w')
                \<and> held w' uid s = held w uid s - min q (held w uid s)
                \<and> (held w' uid s = 0 \<longrightarrow> \<not> hold_live w' uid s)
                \<and> aggregateReserved w' s = aggregateReserved w s - min q (held w uid s)))"
proof (cases "lookup w (getReservationKey uid s)")
  case None
  then show ?thesis
    using assms by (simp add: hold_live_def cancelReservation_def client_get_quiet)
next
  case (Some e)
  have h: "held w uid s = val e"
    using Some by (simp add: held_def)
  have all: "\<exists>w'. cancelReservation w uid s None = (Inr (held w uid s), w')
                \<and> held w' uid s = 0 \<and> \<not> hold_live w' uid s
                \<and> aggregateReserved w' s = aggregateReserved w s - held w uid s"
    using cancelReservation_quiet[OF assms Some, of "val e" None]
    by (auto simp: held_def hold_live_def Some)
  have part: "\<exists>w'. cancelReservation w uid s (Some q) = (Inr (min q (held w uid s)), w')
                \<and> held w' uid s = held w uid s - min q (held w uid s)
                \<and> (held w' uid s = 0 \<longrightarrow> \<not> hold_live w' uid s)
                \<and> aggregateReserved w' s = aggregateReserved w s - min q (held w uid s)" for q
    using cancelReservation_quiet[OF assms Some, of "min q (val e)" "Some q"]
    by (auto simp: held_def hold_live_def Some)
  show ?thesis
    using Some all part by (simp add: hold_live_def)
qed

theorem cancelReservation_amount_witness:
  "env shop = [] \<and> hold_live shop ''u1'' ''A'' \<and>
   (\<exists>w'. cancelReservation shop ''u1'' ''A'' (Some 2) = (Inr 2, w')
       \<and> held w' ''u1'' ''A'' = 3 \<and> aggregateReserved w' ''A'' = 3)"
proof -
  have q: "env shop = []" by (simp add: shop_def)
  have l: "hold_live shop ''u1'' ''A''"
    by (simp add: hold_live_def lookup_def shop_def getReservationKey_def live_def)
  have h: "held shop ''u1'' ''A'' = 5"
    by (simp add: held_def lookup_def shop_def getReservationKey_def live_def)
  have a: "aggregateReserved shop ''A'' = 5"
    by (simp add: aggregateReserved_def lookup_def shop_def getReservedStockKey_def live_def)
  show ?thesis
    using cancelReservation_amount[OF q, of "''u1''" "''A''" "Some 2"] q l h a
    by (auto dest!: spec[of _ 2])
qed

lemma round_trip_redis: "round_trip w = (ok, w1) \<Longrightarrow> redis w1 = redis w"
  by (auto simp: round_trip_def split: list.splits)

lemma round_trip_clock: "round_trip w = (ok, w1) \<Longrightarrow> clock w \<le> clock w1"
  by (auto simp: round_trip_def split: list.splits)

lemma client_get_sound:
  "client_get w k = (r, w1) \<Longrightarrow> redis w1 = redis w \<and> (\<forall>e. r = Inl e \<longrightarrow> e = BackendError)"
  by (auto simp: client_get_def split: prod.splits bool.splits dest: round_trip_redis)

lemma client_ttl_sound:
  "client_ttl w k = (r, w1) \<Longrightarrow> redis w1 = redis w \<and> (\<forall>e. r = Inl e \<longrightarrow> e = BackendError)"
  by (auto simp: client_ttl_def split: prod.splits bool.splits dest: round_trip_redis)

lemma client_exec_failed:
  "client_exec w cmds = (Inl e, w1) \<Longrightarrow> e = BackendError \<and> redis w1 = redis w"
  by (auto simp: client_exec_def split: prod.splits bool.splits dest: round_trip_redis)

lemma console_error_fields [simp]:
  "redis (console_error m w) = redis w" "clock (console_error m w) = clock w"
  "env (console_error m w) = env w" "products (console_error m w) = products w"
  "users (console_error m w) = users w" "orders (console_error m w) = orders w"
  by (simp_all add: console_error_def)

lemma settle_failed:
  "settle label w rk ak remaining taken = (Inl e, w') \<Longrightarrow> e = BackendError \<and> redis w' = redis w"
  by (auto simp: settle_def split: if_splits prod.splits sum.splits
           dest!: client_exec_failed client_ttl_sound)

lemma reserveStock_failed:
  "reserveStock w uid s q ttl = (Inl e, w') \<Longrightarrow> e = BackendError \<and> redis w' = redis w"
  by (auto simp: reserveStock_def Let_def split: prod.splits sum.splits
           dest!: client_exec_failed client_get_sound)

lemma cancelReservation_failed:
  "cancelReservation w uid s qo = (Inl e, w') \<Longrightarrow> e = BackendError \<and> redis w' = redis w"
  by (auto simp: cancelReservation_def Let_def split: prod.splits sum.splits option.splits
           dest!: settle_failed client_get_sound)

lemma releaseReservation_failed:
  "releaseReservation w uid s q = (Inl e, w') \<Longrightarrow> (e = BackendError \<or> e = OverRelease) \<and> redis w' = redis w"
  by (auto simp: releaseReservation_def Let_def split: prod.splits sum.splits option.splits if_splits
           dest!: settle_failed client_get_sound)


subsection \<open>Release\<close>

lemma lookup_shop_u2: "lookup shop (getReservationKey ''u2'' ''A'') = None"
  by (simp add: lookup_def shop_def getReservationKey_def)

text \<open>
  Claim C6 as stated fails where no live hold exists: user \<open>u2\<close> holds nothing on sku
  \<open>A\<close>, a release of 3 exceeds the held 0, and \<open>releaseReservation\<close> returns
  \<open>false\<close> instead of throwing.
\<close>

theorem release_without_hold_counterexample:
  "held shop ''u2'' ''A'' = 0 \<and> releaseReservation shop ''u2'' ''A'' 3 = (Inr False, shop)"
proof -
  have "env shop = []" by (simp add: shop_def)
  then show ?thesis
    by (simp add: held_def lookup_shop_u2 releaseReservation_def client_get_quiet)
qed

text \<open>
  Claim C6, amended. With the backend answering: a release of more than a live hold
  throws \<open>'Cannot release more than reserved'\<close> and leaves every key as it was (only the
  \<open>console.error\<close> of the \<open>catch\<close> is added); without a live hold the call returns
  \<open>false\<close> and changes nothing; otherwise exactly the requested quantity leaves the
  hold and the aggregate counter, never a clamped amount.
\<close>

theorem releaseReservation_over_release:
  assumes "env w = []"
  shows "(hold_live w uid s \<and> held w uid s < q \<longrightarrow>
            releaseReservation w uid s q =
              (Inl OverRelease, console_error ''Error releasing reservation:'' w)) \<and>
         (\<not> hold_live w uid s \<longrightarrow> releaseReservation w uid s q = (Inr False, w)) \<and>
         (hold_live w uid s \<and> q \<le> held w uid s \<longrightarrow>
            (\<exists>w'. releaseReservation w uid s q = (Inr True, w')
                \<and> held w' uid s = held w uid s - q
                \<and> aggregateReserved w' s = aggregateReserved w s - q))"
proof (cases "lookup w (getReservationKey uid s)")
  case None
  then show ?thesis
    using assms by (simp add: hold_live_def releaseReservation_def client_get_quiet)
next
  case (Some e)
  have h: "held w uid s = val e" "hold_live w uid s"
    using Some by (simp_all add: held_def hold_live_def)
  have over: "val e < q \<Longrightarrow> releaseReservation w uid s q =
                (Inl OverRelease, console_error ''Error releasing reservation:'' w)"
    using assms Some by (simp add: releaseReservation_def client_get_quiet)
  have fits: "\<exists>w'. releaseReservation w uid s q = (Inr True, w')
                \<and> held w' uid s = val e - q
                \<and> aggregateReserved w' s = aggregateReserved w s - q" if "q \<le> val e"
  proof -
    have nonneg: "0 \<le> val e - q" using that by simp
    from settle_quiet[OF assms Some key_neq(1) nonneg, of "''Error releasing reservation:''" s q]
    obtain w' where st: "settle ''Error releasing reservation:'' w (getReservationKey uid s)
                           (getReservedStockKey s) (val e - q) q = (Inr (), w')"
      and lk: "lookup w' (getReservationKey uid s) =
               (if val e - q > 0
                then Some (e\<lparr>val := val e - q,
                            expires_at := Some (clock w + (case expires_at e of None \<Rightarrow> 600
                                                           | Some t \<Rightarrow> t - clock w))\<rparr>)
                else None)"
      and ag: "(case lookup w' (getReservedStockKey s) of None \<Rightarrow> 0 | Some a \<Rightarrow> val a)
               = (case lookup w (getReservedStockKey s) of None \<Rightarrow> 0 | Some a \<Rightarrow> val a) - q"
      by blast
    have "releaseReservation w uid s q = (Inr True, w')"
      using assms Some st that by (simp add: releaseReservation_def client_get_quiet)
    moreover have "held w' uid s = val e - q"
      using lk nonneg by (simp add: held_def)
    moreover have "aggregateReserved w' s = aggregateReserved w s - q"
      using ag by (simp add: aggregateReserved_def)
    ultimately show ?thesis by blast
  qed
  show ?thesis
    using h over fits by auto
qed

theorem releaseReservation_over_release_witness:
  "env shop = [] \<and> hold_live shop ''u1'' ''A'' \<and> held shop ''u1'' ''A'' < 7 \<and>
   releaseReservation shop ''u1'' ''A'' 7 =
     (Inl OverRelease, console_error ''Error releasing reservation:'' shop) \<and>
   \<not> hold_live shop ''u2'' ''A'' \<and>
   releaseReservation shop ''u2'' ''A'' 7 = (Inr False, shop) \<and>
   (\<exists>w'. releaseReservation shop ''u1'' ''A'' 2 = (Inr True, w')
       \<and> held w' ''u1'' ''A'' = 3 \<and> aggregateReserved w' ''A'' = 3)"
proof -
  have q: "env shop = []" by (simp add: shop_def)
  have l: "hold_live shop ''u1'' ''A''"
    by (simp add: hold_live_def lookup_def shop_def getReservationKey_def live_def)
  have n: "\<not> hold_live shop ''u2'' ''A''"
    by (simp add: hold_live_def lookup_shop_u2)
  have h: "held shop ''u1'' ''A'' = 5"
    by (simp add: held_def lookup_def shop_def getReservationKey_def live_def)
  have a: "aggregateReserved shop ''A'' = 5"
    by (simp add: aggregateReserved_def lookup_def shop_def getReservedStockKey_def live_def)
  show ?thesis
    using releaseReservation_over_release[OF q, of "''u1''" "''A''" 7]
      releaseReservation_over_release[OF q, of "''u2''" "''A''" 7]
      releaseReservation_over_release[OF q, of "''u1''" "''A''" 2] q l n h a
    by auto
qed

subsection \<open>Backend failures\<close>



















subsection \<open>A lapsed time to live\<close>

lemma client_exec_served:
  "round_trip w = (True, w1) \<Longrightarrow>
   client_exec w cmds = (Inr (), (foldl apply_command w1 cmds)\<lparr>journal := journal w1 @ [Exec cmds]\<rparr>)"
  by (simp add: client_exec_def)

lemma settle_lapsed:
  assumes "client_ttl w rk = (Inr t, w2)" and "t \<le> 0" and "round_trip w2 = (True, w3)"
    and "0 < remaining" and "rk \<noteq> ak"
  shows "\<exists>w'. settle label w rk ak remaining taken = (Inr (), w') \<and> clock w' = clock w3
           \<and> lookup w' rk = Some \<lparr>val = remaining, expires_at = Some (clock w3 + 600)\<rparr>"
  using assms
  by (simp add: settle_def client_exec_served lookup_store live_def split: option.splits)

text \<open>
  Claim C9. When \<open>cancelReservation\<close> or \<open>releaseReservation\<close> leaves a remainder
  and the \<open>TTL\<close> lookup between the \<open>GET\<close> and the \<open>exec()\<close> answers a value that is
  not positive, the remainder is stored with an expiry 600 seconds after the moment the
  transaction is served; an expiry that the key had when it was read, and that has
  lapsed, lies strictly before the new one.
\<close>

theorem lapsed_ttl_gets_600:
  assumes "client_get w (getReservationKey uid s) = (Inr (Some h), w1)"
    and "client_ttl w1 (getReservationKey uid s) = (Inr t, w2)" and "t \<le> 0"
    and "round_trip w2 = (True, w3)"
  shows "(0 < h - min q h \<longrightarrow>
            (\<exists>w'. cancelReservation w uid s (Some q) = (Inr (min q h), w')
                \<and> clock w' = clock w3
                \<and> lookup w' (getReservationKey uid s) =
                     Some \<lparr>val = h - min q h, expires_at = Some (clock w3 + 600)\<rparr>)) \<and>
         (0 < h - q \<longrightarrow>
            (\<exists>w'. releaseReservation w uid s q = (Inr True, w')
                \<and> clock w' = clock w3
                \<and> lookup w' (getReservationKey uid s) =
                     Some \<lparr>val = h - q, expires_at = Some (clock w3 + 600)\<rparr>)) \<and>
         (\<forall>e0 t0. lookup w1 (getReservationKey uid s) = Some e0 \<and> expires_at e0 = Some t0
                    \<and> lookup w2 (getReservationKey uid s) = None
              \<longrightarrow> t0 \<le> clock w3 \<and> t0 < clock w3 + 600)"
proof -
  have c: "\<exists>w'. cancelReservation w uid s (Some q) = (Inr (min q h), w')
                \<and> clock w' = clock w3
                \<and> lookup w' (getReservationKey uid s) =
                     Some \<lparr>val = h - min q h, expires_at = Some (clock w3 + 600)\<rparr>"
    if pos: "0 < h - min q h"
  proof -
    from settle_lapsed[OF assms(2,3,4) pos key_neq(1)[of uid s s],
        where label = "''Error cancelling reservation:''" and taken = "min q h"]
    obtain w' where "settle ''Error cancelling reservation:'' w1 (getReservationKey uid s)
                       (getReservedStockKey s) (h - min q h) (min q h) = (Inr (), w')"
      and "clock w' = clock w3"
      and "lookup w' (getReservationKey uid s) =
             Some \<lparr>val = h - min q h, expires_at = Some (clock w3 + 600)\<rparr>"
      by blast
    then show ?thesis
      using assms(1) by (simp add: cancelReservation_def)
  qed
  have r: "\<exists>w'. releaseReservation w uid s q = (Inr True, w')
                \<and> clock w' = clock w3
                \<and> lookup w' (getReservationKey uid s) =
                     Some \<lparr>val = h - q, expires_at = Some (clock w3 + 600)\<rparr>"
    if pos: "0 < h - q"
  proof -
    from settle_lapsed[OF assms(2,3,4) pos key_neq(1)[of uid s s],
        where label = "''Error releasing reservation:''" and taken = q]
    obtain w' where "settle ''Error releasing reservation:'' w1 (getReservationKey uid s)
                       (getReservedStockKey s) (h - q) q = (Inr (), w')"
      and "clock w' = clock w3"
      and "lookup w' (getReservationKey uid s) =
             Some \<lparr>val = h - q, expires_at = Some (clock w3 + 600)\<rparr>"
      by blast
    then show ?thesis
      using assms(1) pos by (simp add: releaseReservation_def)
  qed
  have l: "t0 \<le> clock w3 \<and> t0 < clock w3 + 600"
    if "lookup w1 (getReservationKey uid s) = Some e0" "expires_at e0 = Some t0"
      "lookup w2 (getReservationKey uid s) = None" for e0 t0
  proof -
    have "redis w2 = redis w1"
      using assms(2) client_ttl_sound by blast
    then have "\<not> clock w2 < t0"
      using that by (auto simp: lookup_def live_def split: option.splits if_splits)
    moreover have "clock w2 \<le> clock w3"
      using assms(4) by (rule round_trip_clock)
    ultimately show ?thesis by simp
  qed
  show ?thesis
    using c r l by blast
qed

theorem lapsed_ttl_gets_600_witness:
  "client_get lapsing (getReservationKey ''u1'' ''A'') =
     (Inr (Some 5), lapsing\<lparr>env := [(5, True)]\<rparr>) \<and>
   client_ttl (lapsing\<lparr>env := [(5, True)]\<rparr>) (getReservationKey ''u1'' ''A'') =
     (Inr (- 2), lapsing\<lparr>clock := 5, env := []\<rparr>) \<and>
   (\<exists>w'. cancelReservation lapsing ''u1'' ''A'' (Some 2) = (Inr 2, w')
       \<and> lookup w' (getReservationKey ''u1'' ''A'') = Some \<lparr>val = 3, expires_at = Some 605\<rparr>) \<and>
   (\<exists>w'. releaseReservation lapsing ''u1'' ''A'' 2 = (Inr True, w')
       \<and> lookup w' (getReservationKey ''u1'' ''A'') = Some \<lparr>val = 3, expires_at = Some 605\<rparr>)"
proof -
  have g: "client_get lapsing (getReservationKey ''u1'' ''A'') =
             (Inr (Some 5), lapsing\<lparr>env := [(5, True)]\<rparr>)"
    by (simp add: client_get_def round_trip_def lapsing_def shop_def lookup_def live_def
        getReservationKey_def)
  have t: "client_ttl (lapsing\<lparr>env := [(5, True)]\<rparr>) (getReservationKey ''u1'' ''A'') =
             (Inr (- 2), lapsing\<lparr>clock := 5, env := []\<rparr>)"
    by (simp add: client_ttl_def round_trip_def lapsing_def shop_def lookup_def live_def
        getReservationKey_def)
  have r: "round_trip (lapsing\<lparr>clock := 5, env := []\<rparr>) = (True, lapsing\<lparr>clock := 5, env := []\<rparr>)"
    by (simp add: round_trip_def)
  have c: "clock (lapsing\<lparr>clock := 5, env := []\<rparr>) + 600 = 605"
    by simp
  show ?thesis
    using lapsed_ttl_gets_600[OF g t _ r, of 2] g t unfolding c by auto
qed

subsection \<open>Admission and the aggregate counter\<close>

text \<open>
  Claim C1 at its failing inputs. Sku \<open>A\<close> has a stock of 5.
  First, two requests for 3 units each, by \<open>u1\<close> and \<open>u2\<close>: each runs the availability
  check of \<open>reserveItems\<close> on the empty store and passes, then each runs
  \<open>reserveStock\<close>, which checks nothing and succeeds; the counter stands at 6.
  Second, one call alone: with the sku fully reserved and the \<open>GET\<close> of the counter
  rejected once, \<open>getTotalReservedStock\<close> answers 0, the check passes, and
  \<open>reserveItems\<close> commits 5 more units; the counter stands at 10.
\<close>

theorem reserve_check_not_atomic:
  "fst (checkStockAvailability flash ''A'' 3) =
     Inr \<lparr>isAvailable = True, availableStock = 5, stock_total = 5, reservedStock = 0\<rparr> \<and>
   (let w1 = snd (reserveStock flash ''u1'' ''A'' 3 600);
        w2 = snd (reserveStock w1 ''u2'' ''A'' 3 600)
    in fst (reserveStock flash ''u1'' ''A'' 3 600) = Inr True \<and>
       fst (reserveStock w1 ''u2'' ''A'' 3 600) = Inr True \<and>
       held w2 ''u1'' ''A'' = 3 \<and> held w2 ''u2'' ''A'' = 3 \<and>
       aggregateReserved w2 ''A'' = 6) \<and>
   aggregateReserved sold_out ''A'' = 5 \<and>
   fst (reserveItems sold_out ''u2'' [\<lparr>sku = ''A'', quantity = 5\<rparr>] 600) =
     Inr [\<lparr>sku = ''A'', quantity = 5\<rparr>] \<and>
   aggregateReserved (snd (reserveItems sold_out ''u2'' [\<lparr>sku = ''A'', quantity = 5\<rparr>] 600)) ''A''
     = 10"
  by code_simp

text \<open>
  Claim C2 at its failing input. \<open>u1\<close> reserves 2 units of \<open>A\<close> at time 0 and \<open>u2\<close>
  reserves 3 at time 300, both for 600 seconds. The second call moves the expiry of the
  counter to 900. At time 601 the hold of \<open>u1\<close> has expired and the live holds sum to
  3, but the counter still answers 5, and a request for one of the two free units is
  refused.
\<close>

theorem aggregate_outlives_hold:
  "(let w1 = snd (reserveItems flash ''u1'' [\<lparr>sku = ''A'', quantity = 2\<rparr>] 600);
        w2 = snd (reserveItems (elapse 300 w1) ''u2'' [\<lparr>sku = ''A'', quantity = 3\<rparr>] 600);
        w3 = elapse 301 w2
    in reservedSum w2 ''A'' = 5 \<and> aggregateReserved w2 ''A'' = 5 \<and>
       clock w3 = 601 \<and>
       held w3 ''u1'' ''A'' = 0 \<and> held w3 ''u2'' ''A'' = 3 \<and>
       reservedSum w3 ''A'' = 3 \<and>
       aggregateReserved w3 ''A'' = 5 \<and>
       fst (getTotalReservedStock w3 ''A'') = Inr 5 \<and>
       fst (checkStockAvailability w3 ''A'' 1) =
         Inr \<lparr>isAvailable = False, availableStock = 0, stock_total = 5, reservedStock = 5\<rparr>)"
  by code_simp

subsection \<open>Batch reservation and its rollback\<close>

lemma reservedQty_simps [simp]:
  "reservedQty [] s = 0"
  "reservedQty (it # its) s = (if sku it = s then quantity it else 0) + reservedQty its s"
  "reservedQty (xs @ ys) s = reservedQty xs s + reservedQty ys s"
  by (simp_all add: reservedQty_def)

lemma reservedQty_nonneg: "\<forall>it \<in> set its. 0 < quantity it \<Longrightarrow> 0 \<le> reservedQty its s"
  by (induction its) auto

lemma getTotalReservedStock_quiet:
  "env w = [] \<Longrightarrow> getTotalReservedStock w s = (Inr (aggregateReserved w s), w)"
  by (simp add: getTotalReservedStock_def client_get_quiet aggregateReserved_def split: option.splits)

lemma getReservedQuantity_quiet:
  "env w = [] \<Longrightarrow> getReservedQuantity w uid s = (Inr (held w uid s), w)"
  by (simp add: getReservedQuantity_def client_get_quiet held_def split: option.splits)

lemma checkStockAvailability_quiet:
  "env w = [] \<Longrightarrow>
   checkStockAvailability w s q =
     (case getProductBySku w s of
        Inl e \<Rightarrow> (Inl e, w)
      | Inr p \<Rightarrow> (Inr \<lparr>isAvailable = (q \<le> totalStock p - aggregateReserved w s),
                        availableStock = max 0 (totalStock p - aggregateReserved w s),
                        stock_total = totalStock p,
                        reservedStock = aggregateReserved w s\<rparr>, w))"
  by (simp add: checkStockAvailability_def getTotalReservedStock_quiet Let_def split: sum.splits)

lemma held_other:
  "\<forall>k. k \<noteq> getReservationKey uid s \<longrightarrow> k \<noteq> getReservedStockKey s \<longrightarrow> lookup w' k = lookup w k
   \<Longrightarrow> s' \<noteq> s \<Longrightarrow> held w' uid s' = held w uid s' \<and> aggregateReserved w' s' = aggregateReserved w s'"
  by (simp add: held_def aggregateReserved_def)

lemma lookup_SetEx:
  "lookup (apply_command w (SetEx k' ttl v)) k =
     (if k = k' then (if 0 < ttl then Some \<lparr>val = v, expires_at = Some (clock w + ttl)\<rparr> else None)
      else lookup w k)"
  by (simp add: lookup_store live_def)

lemma lookup_IncrBy:
  "lookup (apply_command w (IncrBy k' n)) k =
     (if k = k'
      then Some (case lookup w k' of None \<Rightarrow> \<lparr>val = n, expires_at = None\<rparr>
                 | Some e \<Rightarrow> e\<lparr>val := val e + n\<rparr>)
      else lookup w k)"
  by (auto simp: lookup_store live_def split: option.splits dest: lookup_live)

lemma lookup_DecrBy:
  "lookup (apply_command w (DecrBy k' n)) k =
     (if k = k'
      then Some (case lookup w k' of None \<Rightarrow> \<lparr>val = - n, expires_at = None\<rparr>
                 | Some e \<Rightarrow> e\<lparr>val := val e - n\<rparr>)
      else lookup w k)"
  by (auto simp: lookup_store live_def split: option.splits dest: lookup_live)

lemma lookup_Expire:
  "lookup (apply_command w (Expire k' ttl)) k =
     (if k = k'
      then (case lookup w k' of None \<Rightarrow> None
            | Some e \<Rightarrow> if 0 < ttl then Some (e\<lparr>expires_at := Some (clock w + ttl)\<rparr>) else None)
      else lookup w k)"
  by (auto simp: lookup_store live_def split: option.splits)

lemma lookup_Del:
  "lookup (apply_command w (Del k')) k = (if k = k' then None else lookup w k)"
  by (simp add: lookup_delete)

declare apply_command.simps [simp del]

lemma reserveStock_quiet:
  assumes "env w = []" and "0 < ttl"
  shows "\<exists>w'. reserveStock w uid s q ttl = (Inr True, w') \<and> env w' = [] \<and> clock w' = clock w
           \<and> held w' uid s = held w uid s + q
           \<and> aggregateReserved w' s = aggregateReserved w s + q
           \<and> (\<forall>k. k \<noteq> getReservationKey uid s \<longrightarrow> k \<noteq> getReservedStockKey s
                  \<longrightarrow> lookup w' k = lookup w k)
           \<and> products w' = products w \<and> orders w' = orders w \<and> users w' = users w"
proof -
  define w' where "w' = snd (reserveStock w uid s q ttl)"
  have run: "reserveStock w uid s q ttl = (Inr True, w')"
    using assms by (simp add: w'_def reserveStock_def Let_def client_get_quiet client_exec_quiet)
  have w': "w' = (foldl apply_command w
                    [SetEx (getReservationKey uid s) ttl (held w uid s + q),
                     IncrBy (getReservedStockKey s) q,
                     Expire (getReservedStockKey s) ttl])
                 \<lparr>journal := journal w @
                    [Exec [SetEx (getReservationKey uid s) ttl (held w uid s + q),
                           IncrBy (getReservedStockKey s) q,
                           Expire (getReservedStockKey s) ttl]]\<rparr>"
    using assms
    by (simp add: w'_def reserveStock_def Let_def client_get_quiet client_exec_quiet held_def
        split: option.splits)
  have frame: "env w' = []" "clock w' = clock w" "products w' = products w"
    "orders w' = orders w" "users w' = users w"
    using assms by (simp_all add: w')
  have h: "held w' uid s = held w uid s + q"
    using assms(2)
    by (simp add: w' held_def lookup_SetEx lookup_IncrBy lookup_Expire split: option.splits)
  have a: "aggregateReserved w' s = aggregateReserved w s + q"
    using assms(2)
    by (simp add: w' aggregateReserved_def lookup_SetEx lookup_IncrBy lookup_Expire
        split: option.splits)
  have o: "lookup w' k = lookup w k"
    if "k \<noteq> getReservationKey uid s" "k \<noteq> getReservedStockKey s" for k
    using that by (simp add: w' lookup_SetEx lookup_IncrBy lookup_Expire)
  show ?thesis
    using run frame h a o by blast
qed

lemma reserveStock_quiet_sku:
  assumes "env w = []" and "0 < ttl"
  shows "\<exists>w'. reserveStock w uid s q ttl = (Inr True, w') \<and> env w' = [] \<and> clock w' = clock w
           \<and> (\<forall>s'. held w' uid s' = held w uid s' + (if s = s' then q else 0)
                   \<and> aggregateReserved w' s' = aggregateReserved w s' + (if s = s' then q else 0))
           \<and> products w' = products w \<and> orders w' = orders w \<and> users w' = users w"
proof -
  from reserveStock_quiet[OF assms, of uid s q]
  obtain w' where run: "reserveStock w uid s q ttl = (Inr True, w')"
    and frame: "env w' = []" "clock w' = clock w" "products w' = products w"
      "orders w' = orders w" "users w' = users w"
    and h: "held w' uid s = held w uid s + q"
    and a: "aggregateReserved w' s = aggregateReserved w s + q"
    and o: "\<forall>k. k \<noteq> getReservationKey uid s \<longrightarrow> k \<noteq> getReservedStockKey s
                  \<longrightarrow> lookup w' k = lookup w k"
    by blast
  have "held w' uid s' = held w uid s' + (if s = s' then q else 0)
          \<and> aggregateReserved w' s' = aggregateReserved w s' + (if s = s' then q else 0)" for s'
    using h a held_other[OF o, of s'] by auto
  then show ?thesis
    using run frame by blast
qed

lemma reserveLoop_quiet:
  assumes "env w = []" and "0 < ttl" and "reserveLoop w uid its ttl acc = (r, reserved, w1)"
  shows "\<exists>done. reserved = acc @ done \<and> env w1 = [] \<and> clock w1 = clock w
           \<and> (\<forall>it \<in> set done. 0 < quantity it)
           \<and> (\<forall>s. held w1 uid s = held w uid s + reservedQty done s
                  \<and> aggregateReserved w1 s = aggregateReserved w s + reservedQty done s)
           \<and> products w1 = products w \<and> orders w1 = orders w \<and> users w1 = users w"
  using assms
proof (induction its arbitrary: w acc)
  case Nil
  then show ?case by (auto intro!: exI[of _ "[]"])
next
  case (Cons it its)
  have stop: ?case if "reserved = acc" "w1 = w"
    using that Cons.prems(1) by (auto intro!: exI[of _ "[]"])
  show ?case
  proof (cases "sku it = [] \<or> quantity it = 0 \<or> quantity it \<le> 0")
    case True
    with Cons.prems(3) have "reserved = acc" "w1 = w" by auto
    then show ?thesis by (rule stop)
  next
    case valid: False
    show ?thesis
    proof (cases "getProductBySku w (sku it)")
      case (Inl e)
      with valid Cons.prems have "reserved = acc" "w1 = w"
        by (auto simp: checkStockAvailability_quiet)
      then show ?thesis by (rule stop)
    next
      case (Inr p)
      show ?thesis
      proof (cases "quantity it \<le> totalStock p - aggregateReserved w (sku it)")
        case False
        with valid Inr Cons.prems have "reserved = acc" "w1 = w"
          by (auto simp: checkStockAvailability_quiet)
        then show ?thesis by (rule stop)
      next
        case True
        from reserveStock_quiet_sku[OF Cons.prems(1,2), of uid "sku it" "quantity it"]
        obtain w2 where run: "reserveStock w uid (sku it) (quantity it) ttl = (Inr True, w2)"
          and frame: "env w2 = []" "clock w2 = clock w" "products w2 = products w"
            "orders w2 = orders w" "users w2 = users w"
          and eff: "\<forall>s'. held w2 uid s' = held w uid s' + (if sku it = s' then quantity it else 0)
                   \<and> aggregateReserved w2 s' =
                       aggregateReserved w s' + (if sku it = s' then quantity it else 0)"
          by blast
        have loop: "reserveLoop w2 uid its ttl (acc @ [\<lparr>sku = sku it, quantity = quantity it\<rparr>])
                      = (r, reserved, w1)"
          using Cons.prems valid Inr True run by (simp add: checkStockAvailability_quiet)
        from Cons.IH[OF frame(1) Cons.prems(2) loop]
        obtain done' where d: "reserved = (acc @ [\<lparr>sku = sku it, quantity = quantity it\<rparr>]) @ done'"
          and rest: "env w1 = []" "clock w1 = clock w2" "\<forall>it \<in> set done'. 0 < quantity it"
            "\<forall>s. held w1 uid s = held w2 uid s + reservedQty done' s
                  \<and> aggregateReserved w1 s = aggregateReserved w2 s + reservedQty done' s"
            "products w1 = products w2" "orders w1 = orders w2" "users w1 = users w2"
          by blast
        have pos: "0 < quantity it" using valid by simp
        show ?thesis
          apply (rule exI[of _ "\<lparr>sku = sku it, quantity = quantity it\<rparr> # done'"])
          using d rest frame eff pos by simp
      qed
    qed
  qed
qed

lemma held_positive_live: "0 < held w uid s \<Longrightarrow> \<exists>e. lookup w (getReservationKey uid s) = Some e"
  by (auto simp: held_def split: option.splits)

lemma cancelReservation_quiet_sku:
  assumes "env w = []"
  shows "\<exists>c w'. cancelReservation w uid s (Some q) = (Inr c, w') \<and> env w' = []
           \<and> clock w' = clock w
           \<and> products w' = products w \<and> orders w' = orders w \<and> users w' = users w
           \<and> (\<forall>s'. s' \<noteq> s \<longrightarrow> held w' uid s' = held w uid s'
                      \<and> aggregateReserved w' s' = aggregateReserved w s')
           \<and> (0 < q \<and> q \<le> held w uid s \<longrightarrow>
                 held w' uid s = held w uid s - q
                 \<and> aggregateReserved w' s = aggregateReserved w s - q)"
proof (cases "lookup w (getReservationKey uid s)")
  case None
  then have "cancelReservation w uid s (Some q) = (Inr 0, w)" "held w uid s = 0"
    using assms by (simp_all add: cancelReservation_def client_get_quiet held_def)
  then show ?thesis
    using assms by auto
next
  case (Some e)
  from cancelReservation_quiet[OF assms Some, of "min q (val e)" "Some q"]
  obtain w' where run: "cancelReservation w uid s (Some q) = (Inr (min q (val e)), w')"
    and frame: "env w' = []" "clock w' = clock w" "products w' = products w"
      "orders w' = orders w" "users w' = users w"
    and lk: "lookup w' (getReservationKey uid s) =
               (if val e - min q (val e) > 0
                then Some (e\<lparr>val := val e - min q (val e),
                            expires_at := Some (clock w + (case expires_at e of None \<Rightarrow> 600
                                                           | Some t \<Rightarrow> t - clock w))\<rparr>)
                else None)"
    and a: "aggregateReserved w' s = aggregateReserved w s - min q (val e)"
    and o: "\<forall>k. k \<noteq> getReservationKey uid s \<longrightarrow> k \<noteq> getReservedStockKey s
                  \<longrightarrow> lookup w' k = lookup w k"
    by auto
  have h: "held w uid s = val e"
    using Some by (simp add: held_def)
  have h': "held w' uid s = val e - min q (val e)"
    using lk by (simp add: held_def)
  have others: "\<forall>s'. s' \<noteq> s \<longrightarrow> held w' uid s' = held w uid s'
                      \<and> aggregateReserved w' s' = aggregateReserved w s'"
    using held_other[OF o] by blast
  have same: "0 < q \<and> q \<le> held w uid s \<longrightarrow>
                 held w' uid s = held w uid s - q
                 \<and> aggregateReserved w' s = aggregateReserved w s - q"
    using h h' a by auto
  show ?thesis
    using run frame others same by blast
qed

lemma rollback_quiet:
  assumes "env w = []" and "\<forall>it \<in> set done. 0 < quantity it"
  shows "env (rollback w uid done) = [] \<and> clock (rollback w uid done) = clock w
           \<and> products (rollback w uid done) = products w
           \<and> orders (rollback w uid done) = orders w
           \<and> users (rollback w uid done) = users w
           \<and> (\<forall>s. reservedQty done s \<le> held w uid s \<longrightarrow>
                  held (rollback w uid done) uid s = held w uid s - reservedQty done s
                  \<and> aggregateReserved (rollback w uid done) s =
                      aggregateReserved w s - reservedQty done s)"
  using assms
proof (induction "done" arbitrary: w)
  case Nil
  then show ?case by simp
next
  case (Cons it rest)
  from cancelReservation_quiet_sku[OF Cons.prems(1), of uid "sku it" "quantity it"]
  obtain c w2 where run: "cancelReservation w uid (sku it) (Some (quantity it)) = (Inr c, w2)"
    and frame: "env w2 = []" "clock w2 = clock w" "products w2 = products w"
      "orders w2 = orders w" "users w2 = users w"
    and others: "\<forall>s'. s' \<noteq> sku it \<longrightarrow> held w2 uid s' = held w uid s'
                      \<and> aggregateReserved w2 s' = aggregateReserved w s'"
    and same: "0 < quantity it \<and> quantity it \<le> held w uid (sku it) \<longrightarrow>
                 held w2 uid (sku it) = held w uid (sku it) - quantity it
                 \<and> aggregateReserved w2 (sku it) = aggregateReserved w (sku it) - quantity it"
    by blast
  have rb: "rollback w uid (it # rest) = rollback w2 uid rest"
    using run by simp
  have posr: "\<forall>it \<in> set rest. 0 < quantity it" and pos: "0 < quantity it"
    using Cons.prems(2) by simp_all
  note IH = Cons.IH[OF frame(1) posr]
  have eff: "held (rollback w2 uid rest) uid s = held w uid s - reservedQty (it # rest) s
             \<and> aggregateReserved (rollback w2 uid rest) s =
                 aggregateReserved w s - reservedQty (it # rest) s"
    if le: "reservedQty (it # rest) s \<le> held w uid s" for s
  proof (cases "sku it = s")
    case True
    have nn: "0 \<le> reservedQty rest s"
      using posr by (rule reservedQty_nonneg)
    have q: "quantity it \<le> held w uid (sku it)"
      using le True nn by simp
    have "reservedQty rest s \<le> held w2 uid s"
      using same pos q le True by simp
    with IH same pos q True show ?thesis by simp
  next
    case False
    then have "held w2 uid s = held w uid s" "aggregateReserved w2 s = aggregateReserved w s"
      using others by auto
    with IH le False show ?thesis by simp
  qed
  show ?case
    unfolding rb using IH frame eff by simp
qed

text \<open>
  The rollback for quantities that are numbers. When the loop of \<open>reserveItems\<close> stops
  with an error after having reserved some items, the call throws that same error,
  whatever the compensating cancellations do; a cancellation that throws is logged with
  \<open>'Error during rollback:'\<close> and the rollback goes on with the next item. With the
  backend answering and a positive time to live, every sku on which the user held a
  non-negative quantity before the call (none in particular) is back at that quantity
  after the failed call, in the hold of the user and in the aggregate counter.
\<close>

lemma reserveItems_number_rollback:
  "(userExists w uid \<and> reserveLoop w uid its ttl [] = (Some e, reservedItems, w1) \<longrightarrow>
      reserveItems w uid its ttl = (Inl e, rollback w1 uid reservedItems)) \<and>
   (cancelReservation w1 uid (sku it) (Some (quantity it)) = (Inl x, w2) \<longrightarrow>
      rollback w1 uid (it # rest) =
        rollback (console_error ''Error during rollback:'' w2) uid rest) \<and>
   (env w = [] \<and> 0 < ttl \<and> reserveItems w uid its ttl = (Inl e', w') \<longrightarrow>
      (\<forall>s. 0 \<le> held w uid s \<longrightarrow>
           held w' uid s = held w uid s \<and> aggregateReserved w' s = aggregateReserved w s) \<and>
      products w' = products w \<and> orders w' = orders w)"
proof -
  have quiet: "(\<forall>s. 0 \<le> held w uid s \<longrightarrow>
           held w' uid s = held w uid s \<and> aggregateReserved w' s = aggregateReserved w s) \<and>
      products w' = products w \<and> orders w' = orders w"
    if q: "env w = []" and t: "0 < ttl" and run: "reserveItems w uid its ttl = (Inl e', w')"
  proof (cases "userExists w uid")
    case False
    with run show ?thesis by (simp add: reserveItems_def)
  next
    case True
    obtain r reserved wl where loop: "reserveLoop w uid its ttl [] = (r, reserved, wl)"
      by (cases "reserveLoop w uid its ttl []") auto
    from reserveLoop_quiet[OF q t loop]
    obtain dn where d: "reserved = [] @ dn" and ql: "env wl = []"
      and pos: "\<forall>it \<in> set dn. 0 < quantity it"
      and eff: "\<forall>s. held wl uid s = held w uid s + reservedQty dn s
                  \<and> aggregateReserved wl s = aggregateReserved w s + reservedQty dn s"
      and frame: "products wl = products w" "orders wl = orders w"
      by blast
    have w': "w' = rollback wl uid dn"
      using run True loop d by (auto simp: reserveItems_def split: option.splits)
    note rb = rollback_quiet[OF ql pos, of uid]
    have "held w' uid s = held w uid s \<and> aggregateReserved w' s = aggregateReserved w s"
      if "0 \<le> held w uid s" for s
    proof -
      have "reservedQty dn s \<le> held wl uid s"
        using eff that by simp
      with rb eff show ?thesis
        unfolding w' by simp
    qed
    then show ?thesis
      using rb frame unfolding w' by simp
  qed
  have err: "userExists w uid \<and> reserveLoop w uid its ttl [] = (Some e, reservedItems, w1) \<longrightarrow>
      reserveItems w uid its ttl = (Inl e, rollback w1 uid reservedItems)"
    by (simp add: reserveItems_def)
  have lg: "cancelReservation w1 uid (sku it) (Some (quantity it)) = (Inl x, w2) \<longrightarrow>
      rollback w1 uid (it # rest) =
        rollback (console_error ''Error during rollback:'' w2) uid rest"
    by simp
  show ?thesis
    using quiet err lg by blast
qed

lemma reserveItems_number_rollback_example:
  "env two_skus = [] \<and> userExists two_skus ''u1'' \<and> held two_skus ''u1'' ''A'' = 0 \<and>
   fst (reserveItems two_skus ''u1''
          [\<lparr>sku = ''A'', quantity = 2\<rparr>, \<lparr>sku = ''B'', quantity = 3\<rparr>] 600)
     = Inl (InsufficientStock ''B'' 1 3) \<and>
   held (snd (reserveItems two_skus ''u1''
                [\<lparr>sku = ''A'', quantity = 2\<rparr>, \<lparr>sku = ''B'', quantity = 3\<rparr>] 600)) ''u1'' ''A'' = 0 \<and>
   aggregateReserved (snd (reserveItems two_skus ''u1''
                [\<lparr>sku = ''A'', quantity = 2\<rparr>, \<lparr>sku = ''B'', quantity = 3\<rparr>] 600)) ''A'' = 0 \<and>
   fst (reserveItems flaky ''u1''
          [\<lparr>sku = ''A'', quantity = 2\<rparr>, \<lparr>sku = ''B'', quantity = 3\<rparr>] 600)
     = Inl (InsufficientStock ''B'' 1 3) \<and>
   held (snd (reserveItems flaky ''u1''
                [\<lparr>sku = ''A'', quantity = 2\<rparr>, \<lparr>sku = ''B'', quantity = 3\<rparr>] 600)) ''u1'' ''A'' = 2 \<and>
   last (journal (snd (reserveItems flaky ''u1''
                [\<lparr>sku = ''A'', quantity = 2\<rparr>, \<lparr>sku = ''B'', quantity = 3\<rparr>] 600)))
     = ConsoleError ''Error during rollback:''"
proof -
  define its where "its = [\<lparr>sku = ''A'', quantity = 2\<rparr>, \<lparr>sku = ''B'', quantity = (3::int)\<rparr>]"
  define w' where "w' = snd (reserveItems two_skus ''u1'' its 600)"
  define w1 where "w1 = snd (snd (reserveLoop flaky ''u1'' its 600 []))"
  define w2 where "w2 = snd (cancelReservation w1 ''u1'' ''A'' (Some 2))"
  have q: "env two_skus = []" and u: "userExists two_skus ''u1''" and uf: "userExists flaky ''u1''"
    and h0: "held two_skus ''u1'' ''A'' = 0" and a0: "aggregateReserved two_skus ''A'' = 0"
    by code_simp+
  have f1: "fst (reserveItems two_skus ''u1'' its 600) = Inl (InsufficientStock ''B'' 1 3)"
    unfolding its_def by code_simp
  then have run: "reserveItems two_skus ''u1'' its 600 = (Inl (InsufficientStock ''B'' 1 3), w')"
    by (simp add: prod_eq_iff w'_def)
  have "fst (reserveLoop flaky ''u1'' its 600 []) = Some (InsufficientStock ''B'' 1 3)"
    "fst (snd (reserveLoop flaky ''u1'' its 600 [])) = [\<lparr>sku = ''A'', quantity = 2\<rparr>]"
    unfolding its_def by code_simp+
  then have loop: "reserveLoop flaky ''u1'' its 600 [] =
                (Some (InsufficientStock ''B'' 1 3), [\<lparr>sku = ''A'', quantity = 2\<rparr>], w1)"
    by (simp add: prod_eq_iff w1_def)
  have "fst (cancelReservation w1 ''u1'' ''A'' (Some 2)) = Inl BackendError"
    unfolding w1_def its_def by code_simp
  then have canc: "cancelReservation w1 ''u1'' (sku \<lparr>sku = ''A'', quantity = 2\<rparr>)
                (Some (quantity \<lparr>sku = ''A'', quantity = 2\<rparr>)) = (Inl BackendError, w2)"
    by (simp add: prod_eq_iff w2_def)
  have kept: "held (console_error ''Error during rollback:'' w2) ''u1'' ''A'' = 2"
    "last (journal (console_error ''Error during rollback:'' w2)) =
       ConsoleError ''Error during rollback:''"
    unfolding w2_def w1_def its_def by code_simp+
  note thm1 = reserveItems_number_rollback[where w = two_skus and uid = "''u1''" and its = its
      and ttl = 600 and e' = "InsufficientStock ''B'' 1 3" and w' = w']
  note thm2 = reserveItems_number_rollback[where w = flaky and uid = "''u1''" and its = its
      and ttl = 600 and e = "InsufficientStock ''B'' 1 3"
      and reservedItems = "[\<lparr>sku = ''A'', quantity = 2\<rparr>]" and ?w1.0 = w1
      and it = "\<lparr>sku = ''A'', quantity = 2\<rparr>" and x = BackendError and ?w2.0 = w2
      and rest = "[]"]
  have restored: "held w' ''u1'' ''A'' = 0" "aggregateReserved w' ''A'' = 0"
    using thm1 q run h0 a0 by auto
  have fl: "reserveItems flaky ''u1'' its 600 =
              (Inl (InsufficientStock ''B'' 1 3), console_error ''Error during rollback:'' w2)"
    using thm2 uf loop canc by simp
  show ?thesis
    using q u h0 f1 restored fl kept unfolding w'_def its_def by simp
qed

subsection \<open>Batch reservation with string quantities\<close>

declare digits.simps [simp del]

lemma digit_char_cases:
  "n < 10 \<Longrightarrow> is_digit (digit_char n) \<and> digit_value (digit_char n) = n
      \<and> digit_char n \<noteq> CHR '' '' \<and> digit_char n \<noteq> CHR ''-'' \<and> digit_char n \<noteq> CHR ''+''"
proof -
  assume "n < 10"
  then have "n \<in> {0, 1, 2, 3, 4, 5, 6, 7, 8, 9}" by auto
  then show ?thesis
    by (auto simp: digit_char_def is_digit_def digit_value_def)
qed

lemma digits_all: "list_all is_digit (digits n)"
  by (induction n rule: digits.induct) (subst digits.simps, simp add: digit_char_cases)

lemma digits_nonempty: "digits n \<noteq> []"
  by (subst digits.simps) simp

lemma decimal_snoc: "decimal (ds @ [c]) = 10 * decimal ds + digit_value c"
  by (simp add: decimal_def)

lemma decimal_digits: "decimal (digits n) = n"
proof (induction n rule: digits.induct)
  case (1 n)
  show ?case
  proof (cases "n < 10")
    case True
    then show ?thesis
      by (subst digits.simps) (simp add: decimal_def digit_char_cases)
  next
    case False
    with 1 have "decimal (digits (n div 10)) = n div 10" by simp
    with False show ?thesis
      by (subst digits.simps) (simp add: decimal_snoc digit_char_cases)
  qed
qed

lemma takeWhile_digits: "takeWhile is_digit (digits n) = digits n"
  using digits_all[of n] by (simp add: list_all_iff)

lemma unsigned_prefix_digits: "unsigned_prefix (digits n) = Some (int n)"
proof -
  obtain c cs where d: "digits n = c # cs"
    using digits_nonempty[of n] by (cases "digits n") auto
  have "takeWhile is_digit (digits n) = c # cs"
    using takeWhile_digits[of n] d by simp
  then show ?thesis
    using decimal_digits[of n] d unfolding unsigned_prefix_def by simp
qed

lemma digits_hd:
  "\<exists>c cs. digits n = c # cs \<and> is_digit c \<and> c \<noteq> CHR '' '' \<and> c \<noteq> CHR ''-'' \<and> c \<noteq> CHR ''+''"
proof -
  obtain c cs where d: "digits n = c # cs"
    using digits_nonempty[of n] by (cases "digits n") auto
  have "is_digit c" using digits_all[of n] d by simp
  then show ?thesis using d by (auto simp: is_digit_def)
qed

text \<open>
  The number that a service writes with \<open>toString\<close> is the number that \<open>parseInt\<close>
  reads back, which is why the store keeps the values as integers.
\<close>

lemma parseInt_toString: "parseInt (toString i) = Some i"
proof (cases "i < 0")
  case True
  then show ?thesis
    by (simp add: parseInt_def toString_def unsigned_prefix_digits)
next
  case False
  obtain c cs where d: "digits (nat i) = c # cs" "c \<noteq> CHR '' ''" "c \<noteq> CHR ''-''" "c \<noteq> CHR ''+''"
    using digits_hd[of "nat i"] by blast
  have "unsigned_prefix (c # cs) = Some (int (nat i))"
    using unsigned_prefix_digits[of "nat i"] d by simp
  with False d show ?thesis
    by (simp add: parseInt_def toString_def)
qed

lemma unsigned_prefix_append: "unsigned_prefix (digits n @ t) \<noteq> None"
proof -
  obtain c cs where d: "digits n = c # cs" "is_digit c"
    using digits_hd[of n] by blast
  then show ?thesis by (simp add: unsigned_prefix_def)
qed

text \<open>A string that starts with a number is never read as \<open>NaN\<close>.\<close>

lemma parseInt_toString_append: "parseInt (toString i @ t) \<noteq> None"
proof (cases "i < 0")
  case True
  then show ?thesis
    using unsigned_prefix_append[of "nat (- i)" t] by (simp add: parseInt_def toString_def)
next
  case False
  obtain c cs where d: "digits (nat i) = c # cs" "c \<noteq> CHR '' ''" "c \<noteq> CHR ''-''" "c \<noteq> CHR ''+''"
    using digits_hd[of "nat i"] by blast
  have "unsigned_prefix ((c # cs) @ t) \<noteq> None"
    using unsigned_prefix_append[of "nat i" t] d by simp
  with False d show ?thesis
    by (simp add: parseInt_def toString_def)
qed

lemma read_back_toString: "read_back (toString n) = n"
  by (simp add: read_back_def parseInt_toString)

text \<open>
  On quantities that are numbers the methods of this section are the methods of the
  sections \<open>redisService\<close> and \<open>cartService\<close>.
\<close>

lemma reserveStock_js_number:
  "reserveStock_js w uid s (Number q) ttl = reserveStock w uid s q ttl"
  by (simp add: reserveStock_js_def reserveStock_def plus_js_def numberOf_def Let_def
           read_back_toString split: prod.splits sum.splits)

lemma reserveLoop_js_number:
  "reserveLoop_js w uid (map number_item its) ttl (map number_item acc) =
     (case reserveLoop w uid its ttl acc of
        (r, reserved, w1) \<Rightarrow> (r, map number_item reserved, w1))"
proof (induction its arbitrary: w acc)
  case Nil
  show ?case by simp
next
  case (Cons it rest)
  have step: "reserveLoop_js w2 uid (map number_item rest) ttl
                (map number_item acc @ [\<lparr>item_sku = sku it, item_quantity = Number (quantity it)\<rparr>]) =
              (case reserveLoop w2 uid rest ttl (acc @ [\<lparr>sku = sku it, quantity = quantity it\<rparr>]) of
                 (r, reserved, w1) \<Rightarrow> (r, map number_item reserved, w1))" for w2
    using Cons.IH[of w2 "acc @ [\<lparr>sku = sku it, quantity = quantity it\<rparr>]"]
    by (simp add: number_item_def[of "\<lparr>sku = sku it, quantity = quantity it\<rparr>"])
  show ?case
    by (simp add: number_item_def[of it] numberOf_def falsy_def reserveStock_js_number step
             split: prod.splits sum.splits)
qed

lemma rollback_js_number:
  "rollback_js w uid (map number_item its) = rollback w uid its"
  by (induction its arbitrary: w)
     (simp_all add: number_item_def numberOf_def split: prod.splits sum.splits)

lemma reserveItems_js_number:
  "reserveItems_js w uid (map number_item its) ttl =
     (case reserveItems w uid its ttl of
        (r, w1) \<Rightarrow> (map_sum id (map number_item) r, w1))"
  using reserveLoop_js_number[of w uid its ttl "[]"]
  by (simp add: reserveItems_js_def reserveItems_def rollback_js_number
           split: prod.splits option.splits)

text \<open>
  Claim C3 fails in the code for quantities that arrive as strings. The user holds
  nothing; the request \<open>string_batch\<close> asks for \<open>"3"\<close> of \<open>A\<close> twice and for
  \<open>"3"\<close> of \<open>B\<close>, of which one unit is left. The first item writes the hold
  \<open>"03"\<close>, read as 3; the second writes \<open>"33"\<close>, the concatenation of \<open>3\<close> and
  \<open>"3"\<close>, while the counter goes up by 3 each time: when the third item fails with
  \<open>'Insufficient stock'\<close> the hold on \<open>A\<close> is 33 and the counter is 6. The rollback
  cancels 3 twice, and no cancellation fails. After the call the user holds 27 of \<open>A\<close>,
  where the claim wants 0, and the counter of \<open>A\<close> is 0.
\<close>

theorem reserveItems_string_rollback_leaves_hold:
  "held boutique ''64b7f0c2a1d3e4f5a6b7c8d9'' ''A'' = 0 \<and>
   fst (reserveLoop_js boutique ''64b7f0c2a1d3e4f5a6b7c8d9'' string_batch 600 []) =
     Some (InsufficientStock ''B'' 1 3) \<and>
   fst (snd (reserveLoop_js boutique ''64b7f0c2a1d3e4f5a6b7c8d9'' string_batch 600 [])) =
     [\<lparr>item_sku = ''A'', item_quantity = Numeral 3\<rparr>,
      \<lparr>item_sku = ''A'', item_quantity = Numeral 3\<rparr>] \<and>
   held (snd (snd (reserveLoop_js boutique ''64b7f0c2a1d3e4f5a6b7c8d9'' string_batch 600 [])))
     ''64b7f0c2a1d3e4f5a6b7c8d9'' ''A'' = 33 \<and>
   aggregateReserved
     (snd (snd (reserveLoop_js boutique ''64b7f0c2a1d3e4f5a6b7c8d9'' string_batch 600 [])))
     ''A'' = 6 \<and>
   fst (reserveItems_js boutique ''64b7f0c2a1d3e4f5a6b7c8d9'' string_batch 600) =
     Inl (InsufficientStock ''B'' 1 3) \<and>
   ConsoleError ''Error during rollback:'' \<notin>
     set (journal (snd (reserveItems_js boutique ''64b7f0c2a1d3e4f5a6b7c8d9'' string_batch 600))) \<and>
   held (snd (reserveItems_js boutique ''64b7f0c2a1d3e4f5a6b7c8d9'' string_batch 600))
     ''64b7f0c2a1d3e4f5a6b7c8d9'' ''A'' = 27 \<and>
   fst (getReservedQuantity
          (snd (reserveItems_js boutique ''64b7f0c2a1d3e4f5a6b7c8d9'' string_batch 600))
          ''64b7f0c2a1d3e4f5a6b7c8d9'' ''A'') = Inr 27 \<and>
   aggregateReserved (snd (reserveItems_js boutique ''64b7f0c2a1d3e4f5a6b7c8d9'' string_batch 600))
     ''A'' = 0"
  by code_simp

subsection \<open>Admission, one call at a time\<close>

text \<open>
  What the check of \<open>reserveItems\<close> does achieve: with the backend answering and no
  other call between the check and the write, a call that reserves every item leaves
  the counter of each of its skus within the stock.
\<close>

lemma reserveLoop_all_reserved:
  "reserveLoop w uid its ttl acc = (None, reserved, w1) \<Longrightarrow>
   reserved = acc @ map (\<lambda>it. \<lparr>sku = sku it, quantity = quantity it\<rparr>) its"
proof (induction its arbitrary: w acc)
  case Nil
  then show ?case by simp
next
  case (Cons it its)
  from Cons.prems obtain w2 where
    "reserveLoop w2 uid its ttl (acc @ [\<lparr>sku = sku it, quantity = quantity it\<rparr>])
       = (None, reserved, w1)"
    by (auto split: if_splits prod.splits sum.splits)
  from Cons.IH[OF this] show ?case by simp
qed

lemma reservedQty_absent: "s \<notin> sku ` set its \<Longrightarrow> reservedQty its s = 0"
  by (induction its) auto

lemma reserveLoop_within_stock:
  assumes "env w = []" and "0 < ttl" and "reserveLoop w uid its ttl acc = (None, reserved, w1)"
  shows "\<forall>it \<in> set its. aggregateReserved w1 (sku it) \<le> ledgerStock w (sku it)"
  using assms
proof (induction its arbitrary: w acc)
  case Nil
  show ?case by simp
next
  case (Cons it its)
  have valid: "\<not> (sku it = [] \<or> quantity it = 0 \<or> quantity it \<le> 0)"
    using Cons.prems(3) by (auto split: if_splits)
  obtain p where p: "getProductBySku w (sku it) = Inr p"
    using Cons.prems valid
    by (cases "getProductBySku w (sku it)") (auto simp: checkStockAvailability_quiet)
  have fits: "quantity it \<le> totalStock p - aggregateReserved w (sku it)"
    using Cons.prems valid p by (auto simp: checkStockAvailability_quiet split: if_splits)
  from reserveStock_quiet_sku[OF Cons.prems(1,2), of uid "sku it" "quantity it"]
  obtain w2 where run: "reserveStock w uid (sku it) (quantity it) ttl = (Inr True, w2)"
    and frame: "env w2 = []" "products w2 = products w"
    and eff: "\<forall>s'. aggregateReserved w2 s' =
                       aggregateReserved w s' + (if sku it = s' then quantity it else 0)"
    by blast
  have loop: "reserveLoop w2 uid its ttl (acc @ [\<lparr>sku = sku it, quantity = quantity it\<rparr>])
                = (None, reserved, w1)"
    using Cons.prems valid p fits run by (simp add: checkStockAvailability_quiet)
  have st: "ledgerStock w2 s = ledgerStock w s" for s
    by (simp add: ledgerStock_def frame)
  note IH = Cons.IH[OF frame(1) Cons.prems(2) loop]
  have head: "aggregateReserved w1 (sku it) \<le> ledgerStock w (sku it)"
  proof (cases "sku it \<in> sku ` set its")
    case True
    then obtain x where "x \<in> set its" "sku x = sku it" by auto
    with IH show ?thesis by (metis st)
  next
    case False
    from reserveLoop_quiet[OF frame(1) Cons.prems(2) loop]
    obtain dn where d: "reserved = (acc @ [\<lparr>sku = sku it, quantity = quantity it\<rparr>]) @ dn"
      and a: "\<forall>s. aggregateReserved w1 s = aggregateReserved w2 s + reservedQty dn s"
      by blast
    from reserveLoop_all_reserved[OF loop] d
    have "dn = map (\<lambda>it. \<lparr>sku = sku it, quantity = quantity it\<rparr>) its"
      by simp
    then have "sku it \<notin> sku ` set dn"
      using False by (auto simp: image_iff)
    then have "reservedQty dn (sku it) = 0"
      by (rule reservedQty_absent)
    moreover have "ledgerStock w (sku it) = totalStock p"
      using p by (auto simp: ledgerStock_def getProductBySku_def split: option.splits if_splits)
    ultimately show ?thesis
      using a eff fits by simp
  qed
  show ?case
    using head IH by (simp add: st)
qed

lemma reserveItems_within_stock:
  assumes "env w = []" and "0 < ttl" and "reserveItems w uid its ttl = (Inr reserved, w')"
  shows "\<forall>it \<in> set its. aggregateReserved w' (sku it) \<le> ledgerStock w (sku it)"
proof -
  obtain r rs w1 where loop: "reserveLoop w uid its ttl [] = (r, rs, w1)"
    by (cases "reserveLoop w uid its ttl []") auto
  with assms(3) have "r = None" "w' = w1"
    by (auto simp: reserveItems_def split: if_splits option.splits)
  with reserveLoop_within_stock[OF assms(1,2)] loop show ?thesis
    by blast
qed


subsection \<open>Reads change nothing\<close>

lemma same_data_refl [simp]: "same_data w w"
  by (simp add: same_data_def)

lemma same_data_trans: "same_data w w1 \<Longrightarrow> same_data w1 w2 \<Longrightarrow> same_data w w2"
  by (simp add: same_data_def)

lemma same_data_console [simp]: "same_data w (console_error m w1) = same_data w w1"
  by (simp add: same_data_def console_error_def)

lemma same_data_console_left [simp]: "same_data (console_error m w) w1 = same_data w w1"
  by (simp add: same_data_def console_error_def)

lemma round_trip_same: "round_trip w = (ok, w1) \<Longrightarrow> same_data w w1 \<and> clock w \<le> clock w1"
  by (auto simp: round_trip_def same_data_def split: list.splits)

lemma client_get_same: "client_get w k = (r, w1) \<Longrightarrow> same_data w w1 \<and> clock w \<le> clock w1"
  by (auto simp: client_get_def split: prod.splits bool.splits dest: round_trip_same)

lemma client_keys_same: "client_keys w p = (r, w1) \<Longrightarrow> same_data w w1 \<and> clock w \<le> clock w1"
  by (auto simp: client_keys_def split: prod.splits bool.splits dest: round_trip_same)

lemma collectReservations_same:
  "collectReservations w keys acc = (r, w1) \<Longrightarrow> same_data w w1 \<and> clock w \<le> clock w1"
proof (induction keys arbitrary: w acc)
  case Nil
  then show ?case by simp
next
  case (Cons k keys)
  obtain r0 w0 where g: "client_get w k = (r0, w0)"
    by (cases "client_get w k") auto
  note s0 = client_get_same[OF g]
  show ?case
  proof (cases r0)
    case (Inl e)
    with Cons.prems g s0 show ?thesis by simp
  next
    case (Inr v)
    with Cons.prems g have "\<exists>acc'. collectReservations w0 keys acc' = (r, w1)"
      by (cases v) auto
    then obtain acc' where "collectReservations w0 keys acc' = (r, w1)" ..
    from Cons.IH[OF this] s0 show ?thesis
      by (auto intro: same_data_trans)
  qed
qed

lemma getUserReservations_same:
  "getUserReservations w uid = (r, w1) \<Longrightarrow> same_data w w1 \<and> clock w \<le> clock w1"
  by (auto simp: getUserReservations_def split: prod.splits sum.splits
      dest!: client_keys_same collectReservations_same intro: same_data_trans)

lemma getUserReservations_total:
  "\<exists>rs w1. getUserReservations w uid = (Inr rs, w1)"
  by (auto simp: getUserReservations_def split: prod.splits sum.splits)

lemma getProductBySku_console [simp]:
  "getProductBySku (console_error m w) s = getProductBySku w s"
  by (simp add: getProductBySku_def console_error_def)

lemma activeProduct_console [simp]: "activeProduct (console_error m w) s = activeProduct w s"
  by (simp add: activeProduct_def)

lemma cartLines_console [simp]: "cartLines (console_error m w) rs = cartLines w rs"
  by (induction rs) (simp_all split: sum.splits)

lemma cartItems_lines:
  "\<exists>w2. cartItems w rs acc = (acc @ cartLines w rs, w2)
        \<and> same_data w w2 \<and> clock w2 = clock w \<and> env w2 = env w"
proof (induction rs arbitrary: w acc)
  case Nil
  show ?case by simp
next
  case (Cons r rs)
  show ?case
  proof (cases "getProductBySku w (sku r)")
    case (Inl e)
    have step: "cartItems w (r # rs) acc =
                  cartItems (console_error ''Error fetching product'' w) rs acc"
      "cartLines w (r # rs) = cartLines w rs"
      using Inl by simp_all
    from Cons.IH[of "console_error ''Error fetching product'' w" acc]
    show ?thesis
      unfolding step by simp
  next
    case (Inr p)
    have step: "cartItems w (r # rs) acc = cartItems w rs (acc @ [cartLine p r])"
      "cartLines w (r # rs) = cartLine p r # cartLines w rs"
      using Inr by (simp_all add: cartLine_def)
    from Cons.IH[of w "acc @ [cartLine p r]"]
    show ?thesis
      unfolding step by simp
  qed
qed

lemma cartLines_sku:
  "map sku (cartLines w rs) = filter (activeProduct w) (map sku rs)"
  by (induction rs) (simp_all add: activeProduct_def cartLine_def split: sum.splits)



lemma foldl_plus: "foldl (\<lambda>sum it. sum + f it) (a::int) xs = a + sum_list (map f xs)"
  by (induction xs arbitrary: a) simp_all

lemma lookup_same: "same_data w w' \<Longrightarrow> clock w' = clock w \<Longrightarrow> lookup w' k = lookup w k"
  by (simp add: lookup_def same_data_def split: option.splits)

lemma held_same: "same_data w w' \<Longrightarrow> clock w' = clock w \<Longrightarrow> held w' uid s = held w uid s"
  by (simp add: held_def lookup_same)

lemma aggregate_same:
  "same_data w w' \<Longrightarrow> clock w' = clock w \<Longrightarrow> aggregateReserved w' s = aggregateReserved w s"
  by (simp add: aggregateReserved_def lookup_same)

lemma cartLines_same: "same_data w w1 \<Longrightarrow> cartLines w1 rs = cartLines w rs"
  by (induction rs) (simp_all add: getProductBySku_def same_data_def split: sum.splits)

lemma getUserCart_lines:
  assumes "getUserReservations w uid = (Inr rs, w1)"
  shows "\<exists>w2. getUserCart w uid =
               (Inr \<lparr>userId = uid, items = cartLines w rs,
                     totalItems = sum_list (map quantity (cartLines w rs)),
                     totalAmount = sum_list (map totalPrice (cartLines w rs))\<rparr>, w2)
           \<and> same_data w w2 \<and> clock w2 = clock w1 \<and> env w2 = env w1"
proof -
  from getUserReservations_same[OF assms] have s1: "same_data w w1" by simp
  from cartItems_lines[of w1 rs "[]"]
  obtain w2 where ci: "cartItems w1 rs [] = ([] @ cartLines w1 rs, w2)"
    and s2: "same_data w1 w2" and f: "clock w2 = clock w1" "env w2 = env w1"
    by blast
  have "getUserCart w uid =
               (Inr \<lparr>userId = uid, items = cartLines w rs,
                     totalItems = sum_list (map quantity (cartLines w rs)),
                     totalAmount = sum_list (map totalPrice (cartLines w rs))\<rparr>, w2)"
    using assms ci by (simp add: getUserCart_def foldl_plus cartLines_same[OF s1])
  then show ?thesis
    using same_data_trans[OF s1 s2] f by blast
qed

subsection \<open>Holds on products that are not active\<close>



subsection \<open>Checkout: validation\<close>

lemma collectReservations_quiet:
  "env w = [] \<Longrightarrow> \<exists>rs. collectReservations w keys acc = (Inr rs, w)"
proof (induction keys arbitrary: acc)
  case Nil
  show ?case by simp
next
  case (Cons k keys)
  then show ?case
    by (cases "lookup w k") (simp_all add: client_get_quiet)
qed

lemma getUserReservations_quiet:
  assumes "env w = []"
  shows "\<exists>rs. getUserReservations w uid = (Inr rs, w)"
proof -
  define keys where
    "keys = filter (\<lambda>k. lookup w k \<noteq> None \<and> glob (getReservationKey uid ''*'') k) (map fst (redis w))"
  have k: "client_keys w (getReservationKey uid ''*'') = (Inr keys, w)"
    using assms by (simp add: client_keys_def round_trip_quiet keys_def)
  from collectReservations_quiet[OF assms, of keys "[]"]
  obtain rs where "collectReservations w keys [] = (Inr rs, w)" ..
  with k have "getUserReservations w uid = (Inr rs, w)"
    by (simp add: getUserReservations_def)
  then show ?thesis ..
qed

lemma getUserCart_quiet:
  assumes "env w = []"
  shows "\<exists>rs w1. getUserReservations w uid = (Inr rs, w) \<and>
           getUserCart w uid =
               (Inr \<lparr>userId = uid, items = cartLines w rs,
                     totalItems = sum_list (map quantity (cartLines w rs)),
                     totalAmount = sum_list (map totalPrice (cartLines w rs))\<rparr>, w1)
           \<and> same_data w w1 \<and> clock w1 = clock w \<and> env w1 = []"
proof -
  from getUserReservations_quiet[OF assms, of uid]
  obtain rs where rs: "getUserReservations w uid = (Inr rs, w)" ..
  from getUserCart_lines[OF rs] assms rs show ?thesis by auto
qed

lemma cartLines_active: "\<forall>it \<in> set (cartLines w rs). activeProduct w (sku it)"
  by (induction rs) (auto simp: activeProduct_def cartLine_def split: sum.splits)

lemma getUserCart_same: "getUserCart w uid = (r, w1) \<Longrightarrow> same_data w w1"
proof -
  assume c: "getUserCart w uid = (r, w1)"
  obtain rs w0 where rs: "getUserReservations w uid = (Inr rs, w0)"
    using getUserReservations_total by blast
  from getUserCart_lines[OF rs] c show ?thesis by auto
qed

lemma getReservedQuantity_same:
  "getReservedQuantity w uid s = (r, w1) \<Longrightarrow> same_data w w1 \<and> (\<forall>e. r \<noteq> Inl e)"
  by (auto simp: getReservedQuantity_def split: prod.splits sum.splits dest!: client_get_same)

lemma getTotalReservedStock_same:
  "getTotalReservedStock w s = (r, w1) \<Longrightarrow> same_data w w1 \<and> (\<forall>e. r \<noteq> Inl e)"
  by (auto simp: getTotalReservedStock_def split: prod.splits sum.splits dest!: client_get_same)

lemma checkStockAvailability_same:
  "checkStockAvailability w s q = (r, w1) \<Longrightarrow>
   same_data w w1 \<and> (\<forall>e. r = Inl e \<longrightarrow> e = ProductNotFound)"
  by (auto simp: checkStockAvailability_def getProductBySku_def Let_def
      split: prod.splits sum.splits option.splits if_splits dest!: getTotalReservedStock_same)

lemma validateItems_same:
  "validateItems w uid its acc = (r, w1) \<Longrightarrow>
   same_data w w1 \<and> (\<forall>e. r = Inl e \<longrightarrow> e = ProductNotFound)"
proof (induction its arbitrary: w acc)
  case Nil
  then show ?case by auto
next
  case (Cons it its)
  obtain r0 w0 where g: "getReservedQuantity w uid (sku it) = (r0, w0)"
    by (cases "getReservedQuantity w uid (sku it)") auto
  from getReservedQuantity_same[OF g] obtain q where r0: "r0 = Inr q" and s0: "same_data w w0"
    by (cases r0) auto
  obtain r1 w2 where c: "checkStockAvailability w0 (sku it) (quantity it) = (r1, w2)"
    by (cases "checkStockAvailability w0 (sku it) (quantity it)") auto
  note s1 = checkStockAvailability_same[OF c]
  show ?case
  proof (cases r1)
    case (Inl e)
    with Cons.prems g r0 c s0 s1 show ?thesis
      by (auto simp: Let_def intro: same_data_trans)
  next
    case (Inr chk)
    with Cons.prems g r0 c have "\<exists>acc'. validateItems w2 uid its acc' = (r, w1)"
      by (auto simp: Let_def)
    then obtain acc' where "validateItems w2 uid its acc' = (r, w1)" ..
    from Cons.IH[OF this] s0 s1 show ?thesis
      by (auto intro: same_data_trans)
  qed
qed

lemma validateItems_quiet:
  assumes "env w = []" and "\<forall>it \<in> set its. activeProduct w (sku it)"
  shows "validateItems w uid its acc = (Inr (acc @ concat (map (itemViolations w uid) its)), w)"
  using assms(2)
proof (induction its arbitrary: acc)
  case Nil
  show ?case by simp
next
  case (Cons it its)
  from Cons.prems obtain p where p: "getProductBySku w (sku it) = Inr p"
    by (auto simp: activeProduct_def split: sum.splits)
  have rest: "\<forall>it \<in> set its. activeProduct w (sku it)"
    using Cons.prems by simp
  show ?case
    using assms(1) p Cons.IH[OF rest]
    by (simp add: getReservedQuantity_quiet checkStockAvailability_quiet itemViolations_def Let_def)
qed

lemma reduceAll_failed:
  "reduceAll w its = (Inl e, w') \<Longrightarrow> e = ProductNotFound \<or> e = LedgerInsufficientStock"
proof (induction its arbitrary: w)
  case Nil
  then show ?case by simp
next
  case (Cons it its)
  then show ?case
    by (auto simp: reduceStock_def getProductBySku_def Let_def
        split: prod.splits sum.splits option.splits if_splits)
qed

lemma releaseAll_failed:
  "releaseAll w uid its = (Inl e, w') \<Longrightarrow> e = BackendError \<or> e = OverRelease"
proof (induction its arbitrary: w)
  case Nil
  then show ?case by simp
next
  case (Cons it its)
  obtain r0 w0 where r: "releaseReservation w uid (sku it) (quantity it) = (r0, w0)"
    by (cases "releaseReservation w uid (sku it) (quantity it)") auto
  show ?case
  proof (cases r0)
    case (Inl x)
    with Cons.prems r releaseReservation_failed[of w uid "sku it" "quantity it" x w0]
    show ?thesis by auto
  next
    case (Inr b)
    with Cons.prems r Cons.IH[of w0] show ?thesis by auto
  qed
qed

lemma getProductBySku_same: "same_data w w1 \<Longrightarrow> getProductBySku w1 s = getProductBySku w s"
  by (simp add: getProductBySku_def same_data_def)

lemma activeProduct_same: "same_data w w1 \<Longrightarrow> activeProduct w1 s = activeProduct w s"
  by (simp add: activeProduct_def getProductBySku_same)

lemma itemViolations_same:
  "same_data w w1 \<Longrightarrow> clock w1 = clock w \<Longrightarrow> itemViolations w1 uid it = itemViolations w uid it"
  by (simp add: itemViolations_def held_same aggregate_same getProductBySku_same
      split: sum.splits)

lemma processCheckout_validation_failed:
  assumes "processCheckout w uid = (Inl (CheckoutValidationFailed errs), w')"
  shows "errs \<noteq> [] \<and> same_data w w'"
proof -
  have u: "userExists w uid"
    using assms by (auto simp: processCheckout_def split: if_splits)
  obtain rs w0 where rs: "getUserReservations w uid = (Inr rs, w0)"
    using getUserReservations_total by blast
  from getUserCart_lines[OF rs]
  obtain c w1 where c: "getUserCart w uid = (Inr c, w1)" and s1: "same_data w w1"
    by blast
  have ne: "items c \<noteq> []"
    using assms u c by (auto simp: processCheckout_def split: if_splits)
  obtain rv w2 where v: "validateItems w1 uid (items c) [] = (rv, w2)"
    by (cases "validateItems w1 uid (items c) []") auto
  note s2 = validateItems_same[OF v]
  show ?thesis
  proof (cases rv)
    case (Inl e)
    with assms u c ne v s2 show ?thesis
      by (auto simp: processCheckout_def)
  next
    case (Inr found)
    show ?thesis
    proof (cases "found = []")
      case False
      with assms u c ne v Inr have "errs = found" "w' = w2"
        by (auto simp: processCheckout_def)
      with False s1 s2 show ?thesis
        by (auto intro: same_data_trans)
    next
      case True
      with assms u c ne v Inr show ?thesis
        by (auto simp: processCheckout_def Let_def split: prod.splits sum.splits
            dest!: reduceAll_failed releaseAll_failed)
    qed
  qed
qed

text \<open>
  Claim C5. Whenever \<open>processCheckout\<close> throws \<open>'Checkout validation failed'\<close>, the
  list of violations is not empty and no key, product, user or order has changed. With
  the backend answering, an existing user and a cart that is not empty: if any cart
  item has less reserved than its quantity, or fails the availability check, the call
  throws with the violations of every cart item, in cart order, each item contributing
  its quantity mismatch and its stock shortfall; the world is the one the cart was read
  in.
\<close>

theorem checkout_validation_reports_all:
  "(processCheckout w uid = (Inl (CheckoutValidationFailed errs), w') \<longrightarrow>
      errs \<noteq> [] \<and> same_data w w') \<and>
   (env w = [] \<and> userExists w uid \<and> getUserCart w uid = (Inr c, w1) \<and> items c \<noteq> [] \<and>
    concat (map (itemViolations w uid) (items c)) \<noteq> [] \<longrightarrow>
      processCheckout w uid =
        (Inl (CheckoutValidationFailed (concat (map (itemViolations w uid) (items c)))), w1) \<and>
      same_data w w1 \<and>
      (\<forall>it \<in> set (items c).
          (held w uid (sku it) < quantity it \<longrightarrow>
             QuantityMismatch (sku it) (held w uid (sku it)) (quantity it)
               \<in> set (concat (map (itemViolations w uid) (items c)))) \<and>
          (\<forall>p. getProductBySku w (sku it) = Inr p \<and>
                \<not> quantity it \<le> totalStock p - aggregateReserved w (sku it) \<longrightarrow>
             StockShortfall (sku it) (max 0 (totalStock p - aggregateReserved w (sku it)))
                 (quantity it)
               \<in> set (concat (map (itemViolations w uid) (items c))))))"
proof -
  have quiet: "processCheckout w uid =
        (Inl (CheckoutValidationFailed (concat (map (itemViolations w uid) (items c)))), w1) \<and>
      same_data w w1"
    if q: "env w = []" and u: "userExists w uid" and c: "getUserCart w uid = (Inr c, w1)"
      and ne: "items c \<noteq> []" and bad: "concat (map (itemViolations w uid) (items c)) \<noteq> []"
  proof -
    from getUserCart_quiet[OF q, of uid] c
    obtain rs where it: "items c = cartLines w rs" and s1: "same_data w w1"
      and f: "clock w1 = clock w" "env w1 = []"
      by auto
    have act: "\<forall>it \<in> set (items c). activeProduct w1 (sku it)"
      using cartLines_active[of w rs] it by (simp add: activeProduct_same[OF s1])
    have "itemViolations w1 uid = itemViolations w uid"
      using itemViolations_same[OF s1 f(1)] by (rule ext)
    then have v: "validateItems w1 uid (items c) [] =
               (Inr (concat (map (itemViolations w uid) (items c))), w1)"
      using validateItems_quiet[OF f(2) act, of uid "[]"] by simp
    show ?thesis
      using u c ne bad v s1 by (simp add: processCheckout_def)
  qed
  have listed: "\<forall>it \<in> set (items c).
          (held w uid (sku it) < quantity it \<longrightarrow>
             QuantityMismatch (sku it) (held w uid (sku it)) (quantity it)
               \<in> set (concat (map (itemViolations w uid) (items c)))) \<and>
          (\<forall>p. getProductBySku w (sku it) = Inr p \<and>
                \<not> quantity it \<le> totalStock p - aggregateReserved w (sku it) \<longrightarrow>
             StockShortfall (sku it) (max 0 (totalStock p - aggregateReserved w (sku it)))
                 (quantity it)
               \<in> set (concat (map (itemViolations w uid) (items c))))"
    by (auto simp: itemViolations_def intro!: bexI)
  show ?thesis
    using processCheckout_validation_failed[of w uid errs w'] quiet listed by blast
qed

theorem checkout_validation_reports_all_witness:
  "env crowded = [] \<and> userExists crowded ''u1'' \<and>
   fst (processCheckout crowded ''u1'') =
     Inl (CheckoutValidationFailed [StockShortfall ''A'' 2 3, StockShortfall ''B'' 2 3]) \<and>
   same_data crowded (snd (processCheckout crowded ''u1''))"
proof -
  define c where
    "c = \<lparr>userId = ''u1'',
          items = [\<lparr>sku = ''A'', quantity = 3, productId = 1, price = 10, name = ''gadget'',
                    totalPrice = 30\<rparr>,
                   \<lparr>sku = ''B'', quantity = 3, productId = 2, price = 7, name = ''widget'',
                    totalPrice = 21\<rparr>],
          totalItems = 6, totalAmount = 51\<rparr>"
  define w1 where "w1 = snd (getUserCart crowded ''u1'')"
  have q: "env crowded = []" and u: "userExists crowded ''u1''"
    by code_simp+
  have "fst (getUserCart crowded ''u1'') = Inr c"
    unfolding c_def by code_simp
  then have cart: "getUserCart crowded ''u1'' = (Inr c, w1)"
    by (simp add: prod_eq_iff w1_def)
  have ne: "items c \<noteq> []"
    by (simp add: c_def)
  have bad: "concat (map (itemViolations crowded ''u1'') (items c)) =
               [StockShortfall ''A'' 2 3, StockShortfall ''B'' 2 3]"
    unfolding c_def by code_simp
  from checkout_validation_reports_all[of crowded "''u1''" "[]" crowded c w1] q u cart ne bad
  have "processCheckout crowded ''u1'' =
          (Inl (CheckoutValidationFailed [StockShortfall ''A'' 2 3, StockShortfall ''B'' 2 3]), w1)"
    and "same_data crowded w1"
    by simp_all
  then show ?thesis
    using q u by simp
qed

subsection \<open>Checkout: the conversion\<close>

lemma reduceStock_ok:
  assumes "reduceStock w s q = (Inr p', w0)"
  shows "\<exists>p. getProductBySku w s = Inr p \<and> q \<le> totalStock p
           \<and> p' = p\<lparr>totalStock := totalStock p - q\<rparr>
           \<and> w0 = w\<lparr>products := (products w)(s \<mapsto> p'),
                     journal := journal w @ [ProductSaved s (totalStock p - q)]\<rparr>"
  using assms
  by (auto simp: reduceStock_def Let_def split: sum.splits if_splits)

lemma reduceAll_ok:
  assumes "reduceAll w its = (Inr (), w')" and "distinct (map sku its)"
  shows "redis w' = redis w \<and> clock w' = clock w \<and> env w' = env w \<and> orders w' = orders w
           \<and> users w' = users w
           \<and> journal w' =
               journal w @ map (\<lambda>it. ProductSaved (sku it) (ledgerStock w (sku it) - quantity it)) its
           \<and> (\<forall>it \<in> set its. ledgerStock w' (sku it) = ledgerStock w (sku it) - quantity it)
           \<and> (\<forall>s. s \<notin> sku ` set its \<longrightarrow> products w' s = products w s)"
  using assms
proof (induction its arbitrary: w)
  case Nil
  then show ?case by simp
next
  case (Cons it its)
  obtain r0 w0 where r: "reduceStock w (sku it) (quantity it) = (r0, w0)"
    by (cases "reduceStock w (sku it) (quantity it)") auto
  with Cons.prems(1) obtain p' where p': "r0 = Inr p'" and rest: "reduceAll w0 its = (Inr (), w')"
    by (cases r0) auto
  from reduceStock_ok[OF r[unfolded p']]
  obtain p where p: "getProductBySku w (sku it) = Inr p"
    and w0: "w0 = w\<lparr>products := (products w)(sku it \<mapsto> p\<lparr>totalStock := totalStock p - quantity it\<rparr>),
                     journal := journal w @ [ProductSaved (sku it) (totalStock p - quantity it)]\<rparr>"
    by blast
  have st: "ledgerStock w (sku it) = totalStock p"
    using p by (auto simp: ledgerStock_def getProductBySku_def split: option.splits if_splits)
  have d: "distinct (map sku its)" and fresh: "sku it \<notin> sku ` set its"
    using Cons.prems(2) by auto
  note IH = Cons.IH[OF rest d]
  have other: "ledgerStock w0 s = ledgerStock w s" if "s \<noteq> sku it" for s
    using that by (simp add: w0 ledgerStock_def)
  have here: "ledgerStock w' (sku it) = totalStock p - quantity it"
  proof -
    have "products w' (sku it) = products w0 (sku it)"
      using IH fresh by blast
    then show ?thesis
      by (simp add: w0 ledgerStock_def)
  qed
  have j: "map (\<lambda>it. ProductSaved (sku it) (ledgerStock w0 (sku it) - quantity it)) its =
           map (\<lambda>it. ProductSaved (sku it) (ledgerStock w (sku it) - quantity it)) its"
  proof (rule map_cong[OF refl])
    fix x assume "x \<in> set its"
    with fresh have "sku x \<noteq> sku it" by (metis imageI)
    then show "ProductSaved (sku x) (ledgerStock w0 (sku x) - quantity x) =
               ProductSaved (sku x) (ledgerStock w (sku x) - quantity x)"
      by (simp add: other)
  qed
  have elsewhere: "products w' s = products w s" if "s \<notin> sku ` set (it # its)" for s
  proof -
    from that have "s \<notin> sku ` set its" "s \<noteq> sku it" by auto
    with IH have "products w' s = products w0 s" by blast
    with \<open>s \<noteq> sku it\<close> show ?thesis by (simp add: w0)
  qed
  have rest_items: "ledgerStock w' (sku x) = ledgerStock w (sku x) - quantity x"
    if "x \<in> set its" for x
  proof -
    from that fresh have "sku x \<noteq> sku it" by (metis imageI)
    with IH that other show ?thesis by simp
  qed
  show ?case
    using IH here st j elsewhere rest_items by (simp add: w0)
qed

lemma releaseReservation_exact:
  assumes "env w = []" and "lookup w (getReservationKey uid s) = Some e" and "val e = q"
  shows "\<exists>w'. releaseReservation w uid s q = (Inr True, w') \<and> env w' = [] \<and> clock w' = clock w
           \<and> products w' = products w \<and> orders w' = orders w \<and> users w' = users w
           \<and> journal w' = journal w @
                 [Exec [Del (getReservationKey uid s), DecrBy (getReservedStockKey s) q]]
           \<and> lookup w' (getReservationKey uid s) = None
           \<and> aggregateReserved w' s = aggregateReserved w s - q
           \<and> (\<forall>k. k \<noteq> getReservationKey uid s \<longrightarrow> k \<noteq> getReservedStockKey s
                  \<longrightarrow> lookup w' k = lookup w k)"
proof -
  define w' where
    "w' = (foldl apply_command w [Del (getReservationKey uid s), DecrBy (getReservedStockKey s) q])
            \<lparr>journal := journal w @
               [Exec [Del (getReservationKey uid s), DecrBy (getReservedStockKey s) q]]\<rparr>"
  have run: "releaseReservation w uid s q = (Inr True, w')"
    using assms
    by (simp add: releaseReservation_def client_get_quiet settle_def client_exec_quiet w'_def
        Let_def)
  have frame: "env w' = []" "clock w' = clock w" "products w' = products w"
    "orders w' = orders w" "users w' = users w"
    "journal w' = journal w @
                 [Exec [Del (getReservationKey uid s), DecrBy (getReservedStockKey s) q]]"
    using assms(1) by (simp_all add: w'_def)
  have gone: "lookup w' (getReservationKey uid s) = None"
    by (simp add: w'_def lookup_Del lookup_DecrBy)
  have a: "aggregateReserved w' s = aggregateReserved w s - q"
    by (simp add: w'_def aggregateReserved_def lookup_Del lookup_DecrBy split: option.splits)
  have o: "lookup w' k = lookup w k"
    if "k \<noteq> getReservationKey uid s" "k \<noteq> getReservedStockKey s" for k
    using that by (simp add: w'_def lookup_Del lookup_DecrBy)
  show ?thesis
    using run frame gone a o by blast
qed

lemma releaseAll_quiet:
  assumes "env w = []" and "distinct (map sku its)"
    and "\<forall>it \<in> set its. hold_live w uid (sku it) \<and> held w uid (sku it) = quantity it"
  shows "\<exists>w'. releaseAll w uid its = (Inr (), w') \<and> env w' = [] \<and> clock w' = clock w
           \<and> products w' = products w \<and> orders w' = orders w \<and> users w' = users w
           \<and> journal w' = journal w @
                 map (\<lambda>it. Exec [Del (getReservationKey uid (sku it)),
                                 DecrBy (getReservedStockKey (sku it)) (quantity it)]) its
           \<and> (\<forall>it \<in> set its. \<not> hold_live w' uid (sku it) \<and> held w' uid (sku it) = 0
                  \<and> aggregateReserved w' (sku it) = aggregateReserved w (sku it) - quantity it)
           \<and> (\<forall>s. s \<notin> sku ` set its \<longrightarrow>
                  lookup w' (getReservationKey uid s) = lookup w (getReservationKey uid s)
                  \<and> aggregateReserved w' s = aggregateReserved w s)"
  using assms
proof (induction its arbitrary: w)
  case Nil
  then show ?case by simp
next
  case (Cons it its)
  from Cons.prems(3) obtain e where e: "lookup w (getReservationKey uid (sku it)) = Some e"
    and v: "val e = quantity it"
    by (auto simp: hold_live_def held_def)
  from releaseReservation_exact[OF Cons.prems(1) e v]
  obtain w0 where run: "releaseReservation w uid (sku it) (quantity it) = (Inr True, w0)"
    and frame: "env w0 = []" "clock w0 = clock w" "products w0 = products w"
      "orders w0 = orders w" "users w0 = users w"
      "journal w0 = journal w @
         [Exec [Del (getReservationKey uid (sku it)),
                DecrBy (getReservedStockKey (sku it)) (quantity it)]]"
    and gone: "lookup w0 (getReservationKey uid (sku it)) = None"
    and a: "aggregateReserved w0 (sku it) = aggregateReserved w (sku it) - quantity it"
    and o: "\<forall>k. k \<noteq> getReservationKey uid (sku it) \<longrightarrow> k \<noteq> getReservedStockKey (sku it)
                  \<longrightarrow> lookup w0 k = lookup w k"
    by blast
  have d: "distinct (map sku its)" and fresh: "sku it \<notin> sku ` set its"
    using Cons.prems(2) by auto
  have other: "lookup w0 (getReservationKey uid s) = lookup w (getReservationKey uid s)
               \<and> aggregateReserved w0 s = aggregateReserved w s" if "s \<noteq> sku it" for s
    using o that by (simp add: aggregateReserved_def)
  have holds0: "\<forall>x \<in> set its. hold_live w0 uid (sku x) \<and> held w0 uid (sku x) = quantity x"
  proof
    fix x assume x: "x \<in> set its"
    with fresh have "sku x \<noteq> sku it" by (metis imageI)
    with other Cons.prems(3) x show "hold_live w0 uid (sku x) \<and> held w0 uid (sku x) = quantity x"
      by (simp add: hold_live_def held_def)
  qed
  from Cons.IH[OF frame(1) d holds0]
  obtain w' where rest: "releaseAll w0 uid its = (Inr (), w')"
    and frame': "env w' = []" "clock w' = clock w0" "products w' = products w0"
      "orders w' = orders w0" "users w' = users w0"
      "journal w' = journal w0 @
                 map (\<lambda>it. Exec [Del (getReservationKey uid (sku it)),
                                 DecrBy (getReservedStockKey (sku it)) (quantity it)]) its"
    and done': "\<forall>it \<in> set its. \<not> hold_live w' uid (sku it) \<and> held w' uid (sku it) = 0
                  \<and> aggregateReserved w' (sku it) = aggregateReserved w0 (sku it) - quantity it"
    and keep': "\<forall>s. s \<notin> sku ` set its \<longrightarrow>
                  lookup w' (getReservationKey uid s) = lookup w0 (getReservationKey uid s)
                  \<and> aggregateReserved w' s = aggregateReserved w0 s"
    by blast
  have all: "releaseAll w uid (it # its) = (Inr (), w')"
    using run rest by simp
  have head: "\<not> hold_live w' uid (sku it) \<and> held w' uid (sku it) = 0
                  \<and> aggregateReserved w' (sku it) = aggregateReserved w (sku it) - quantity it"
    using keep' fresh gone a by (simp add: hold_live_def held_def)
  have tail: "\<not> hold_live w' uid (sku x) \<and> held w' uid (sku x) = 0
                  \<and> aggregateReserved w' (sku x) = aggregateReserved w (sku x) - quantity x"
    if x: "x \<in> set its" for x
  proof -
    from x fresh have "sku x \<noteq> sku it" by (metis imageI)
    with other done' x show ?thesis by simp
  qed
  have keep: "lookup w' (getReservationKey uid s) = lookup w (getReservationKey uid s)
                  \<and> aggregateReserved w' s = aggregateReserved w s"
    if "s \<notin> sku ` set (it # its)" for s
  proof -
    from that have "s \<notin> sku ` set its" "s \<noteq> sku it" by auto
    with keep' other show ?thesis by simp
  qed
  show ?case
    apply (rule exI[of _ w'])
    using all frame frame' head tail keep by simp
qed

lemma lookup_eq: "redis w' = redis w \<Longrightarrow> clock w' = clock w \<Longrightarrow> lookup w' k = lookup w k"
  by (simp add: lookup_def split: option.splits)

lemma cartLines_price:
  "\<forall>it \<in> set (cartLines w rs). \<exists>p. getProductBySku w (sku it) = Inr p \<and> price it = product_price p"
  by (induction rs) (auto simp: cartLine_def split: sum.splits)

lemma checkout_conversion:
  assumes "env w = []" and "processCheckout w uid = (Inr rc, w')"
    and "getUserCart w uid = (Inr c, w1)"
    and "distinct (map sku (items c))"
    and "\<forall>it \<in> set (items c). hold_live w uid (sku it) \<and> held w uid (sku it) = quantity it"
  shows "orders w' = orders w @
           [\<lparr>order_userId = uid, order_items = map orderItem (items c),
             order_totalAmount = totalAmount c, order_status = ''completed''\<rparr>] \<and>
         orderId rc = length (orders w) \<and> receipt_items rc = map orderItem (items c) \<and>
         (\<forall>it \<in> set (items c).
             (\<exists>p. getProductBySku w (sku it) = Inr p \<and> price (orderItem it) = product_price p) \<and>
             ledgerStock w' (sku it) = ledgerStock w (sku it) - quantity it \<and>
             held w' uid (sku it) = 0 \<and> \<not> hold_live w' uid (sku it)) \<and>
         journal w' =
           journal w1 @ OrderSaved (length (orders w)) #
             map (\<lambda>it. ProductSaved (sku it) (ledgerStock w (sku it) - quantity it)) (items c) @
             map (\<lambda>it. Exec [Del (getReservationKey uid (sku it)),
                             DecrBy (getReservedStockKey (sku it)) (quantity it)]) (items c)"
proof -
  note q = assms(1) and run = assms(2) and cart = assms(3)
  have u: "userExists w uid"
    using run by (auto simp: processCheckout_def split: if_splits)
  from getUserCart_quiet[OF q, of uid] cart
  obtain rs where it: "items c = cartLines w rs" and s1: "same_data w w1"
    and f: "clock w1 = clock w" "env w1 = []"
    by auto
  have ne: "items c \<noteq> []"
    using run u cart by (auto simp: processCheckout_def split: if_splits)
  have act: "\<forall>it \<in> set (items c). activeProduct w1 (sku it)"
    using cartLines_active[of w rs] it by (simp add: activeProduct_same[OF s1])
  define found where "found = concat (map (itemViolations w1 uid) (items c))"
  have v: "validateItems w1 uid (items c) [] = (Inr found, w1)"
    using validateItems_quiet[OF f(2) act, of uid "[]"] by (simp add: found_def)
  have clean: "found = []"
    using run u cart ne v by (auto simp: processCheckout_def split: if_splits)
  define ord where
    "ord = \<lparr>order_userId = uid, order_items = map orderItem (items c),
            order_totalAmount = totalAmount c, order_status = ''completed''\<rparr>"
  define w3 where
    "w3 = w1\<lparr>orders := orders w1 @ [ord],
             journal := journal w1 @ [OrderSaved (length (orders w1))]\<rparr>"
  have sv: "saveOrder w1 ord = (length (orders w1), w3)"
    by (simp add: saveOrder_def w3_def)
  obtain rr w4 where red: "reduceAll w3 (items c) = (rr, w4)"
    by (cases "reduceAll w3 (items c)") auto
  have rr: "rr = Inr ()"
    using run u cart ne v clean sv red
    by (cases rr) (auto simp: processCheckout_def Let_def ord_def)
  note r4 = reduceAll_ok[OF red[unfolded rr] assms(4)]
  have o1: "orders w1 = orders w" and p1: "products w1 = products w" and r1: "redis w1 = redis w"
    using s1 by (simp_all add: same_data_def)
  have w3: "journal w3 = journal w1 @ [OrderSaved (length (orders w))]"
    "orders w3 = orders w @ [ord]" "redis w3 = redis w" "clock w3 = clock w" "env w3 = []"
    "products w3 = products w"
    by (simp_all add: w3_def o1 p1 r1 f)
  have env4: "env w4 = []"
    using r4 w3 by simp
  have lk4: "lookup w4 k = lookup w k" for k
    using r4 w3 by (intro lookup_eq) simp_all
  have holds4: "\<forall>it \<in> set (items c). hold_live w4 uid (sku it)
                  \<and> held w4 uid (sku it) = quantity it"
    using assms(5) by (simp add: hold_live_def held_def lk4)
  from releaseAll_quiet[OF env4 assms(4) holds4]
  obtain w5 where rel: "releaseAll w4 uid (items c) = (Inr (), w5)"
    and frame5: "products w5 = products w4" "orders w5 = orders w4"
      "journal w5 = journal w4 @
                 map (\<lambda>it. Exec [Del (getReservationKey uid (sku it)),
                                 DecrBy (getReservedStockKey (sku it)) (quantity it)]) (items c)"
    and done5: "\<forall>it \<in> set (items c). \<not> hold_live w5 uid (sku it) \<and> held w5 uid (sku it) = 0"
    by blast
  have result: "rc = \<lparr>orderId = length (orders w1), receipt_userId = uid,
                      receipt_items = map orderItem (items c),
                      receipt_totalAmount = totalAmount c\<rparr>" "w' = w5"
    using run u cart ne v clean sv red rr rel
    by (auto simp: processCheckout_def Let_def ord_def)
  have st3: "ledgerStock w3 s = ledgerStock w s" for s
    by (simp add: ledgerStock_def w3)
  have st5: "ledgerStock w5 s = ledgerStock w4 s" for s
    by (simp add: ledgerStock_def frame5)
  have ord5: "orders w5 = orders w @ [ord]"
    using frame5 r4 by (simp add: w3)
  have j5: "journal w5 =
           journal w1 @ OrderSaved (length (orders w)) #
             map (\<lambda>it. ProductSaved (sku it) (ledgerStock w (sku it) - quantity it)) (items c) @
             map (\<lambda>it. Exec [Del (getReservationKey uid (sku it)),
                             DecrBy (getReservedStockKey (sku it)) (quantity it)]) (items c)"
    using frame5 r4 by (simp add: w3 st3)
  have snap: "\<forall>it \<in> set (items c).
                \<exists>p. getProductBySku w (sku it) = Inr p \<and> price (orderItem it) = product_price p"
    using cartLines_price[of w rs] by (simp add: it orderItem_def)
  have stock: "\<forall>it \<in> set (items c). ledgerStock w5 (sku it) = ledgerStock w (sku it) - quantity it"
    using r4 by (simp add: st5 st3)
  show ?thesis
    using result ord5 j5 snap stock done5 by (simp add: ord_def o1)
qed

subsection \<open>The cart of a tidy store\<close>

lemma split_on_none: "c \<notin> set xs \<Longrightarrow> split_on c xs = [xs]"
  by (induction xs) auto

lemma split_on_first: "c \<notin> set xs \<Longrightarrow> split_on c (xs @ c # ys) = xs # split_on c ys"
  by (induction xs) auto

lemma key_sku_own:
  assumes "CHR '':'' \<notin> set uid" and "CHR '':'' \<notin> set s"
  shows "key_sku (getReservationKey uid s) = s"
proof -
  have "split_on CHR '':'' (getReservationKey uid s) =
          ''reservation'' # split_on CHR '':'' (uid @ CHR '':'' # s)"
    using split_on_first[of "CHR '':''" "''reservation''" "uid @ CHR '':'' # s"]
    by (simp add: getReservationKey_def)
  also have "split_on CHR '':'' (uid @ CHR '':'' # s) = uid # split_on CHR '':'' s"
    using assms(1) by (rule split_on_first)
  also have "split_on CHR '':'' s = [s]"
    using assms(2) by (rule split_on_none)
  finally show ?thesis
    by (simp add: key_sku_def)
qed

lemma glob_star: "glob ''*'' k"
  by (induction k) simp_all

lemma glob_literal:
  "CHR ''*'' \<notin> set p \<Longrightarrow> CHR ''?'' \<notin> set p \<Longrightarrow>
   glob (p @ q) k = (take (length p) k = p \<and> glob q (drop (length p) k))"
proof (induction p arbitrary: k)
  case Nil
  show ?case by simp
next
  case (Cons a p)
  then show ?case by (cases k) auto
qed

lemma first_colon:
  "c \<notin> set a \<Longrightarrow> c \<notin> set b \<Longrightarrow> a @ c # x = b @ c # y \<Longrightarrow> a = b \<and> x = y"
proof (induction a arbitrary: b)
  case Nil
  then show ?case by (cases b) auto
next
  case (Cons h a)
  then show ?case by (cases b) auto
qed

lemma pattern_matches:
  assumes "plain uid"
  shows "glob (getReservationKey uid ''*'') k = (\<exists>rest. k = ''reservation:'' @ uid @ '':'' @ rest)"
proof -
  have np: "CHR ''*'' \<notin> set (''reservation:'' @ uid @ '':'')"
    "CHR ''?'' \<notin> set (''reservation:'' @ uid @ '':'')"
    using assms by (auto simp: plain_def)
  have "getReservationKey uid ''*'' = (''reservation:'' @ uid @ '':'') @ ''*''"
    by (simp add: getReservationKey_def)
  then have "glob (getReservationKey uid ''*'') k =
               (take (length (''reservation:'' @ uid @ '':'')) k = ''reservation:'' @ uid @ '':'')"
    using glob_literal[OF np, of "''*''" k] by (simp only: glob_star simp_thms)
  also have "\<dots> = (\<exists>rest. k = ''reservation:'' @ uid @ '':'' @ rest)"
  proof
    assume "take (length (''reservation:'' @ uid @ '':'')) k = ''reservation:'' @ uid @ '':''"
    then have "k = (''reservation:'' @ uid @ '':'') @ drop (length (''reservation:'' @ uid @ '':'')) k"
      by (metis append_take_drop_id)
    then show "\<exists>rest. k = ''reservation:'' @ uid @ '':'' @ rest"
      by (metis append.assoc)
  next
    assume "\<exists>rest. k = ''reservation:'' @ uid @ '':'' @ rest"
    then obtain rest where "k = (''reservation:'' @ uid @ '':'') @ rest" by auto
    then show "take (length (''reservation:'' @ uid @ '':'')) k = ''reservation:'' @ uid @ '':''"
      by (simp only: take_all append_eq_conv_conj) simp
  qed
  finally show ?thesis .
qed

lemma own_key_reservation:
  assumes "plain uid" and "plain uid'" and "CHR '':'' \<notin> set s"
  shows "own_key uid (getReservationKey uid' s)"
proof (cases "glob (getReservationKey uid ''*'') (getReservationKey uid' s)")
  case False
  then show ?thesis by (simp add: own_key_def)
next
  case True
  then obtain rest where "getReservationKey uid' s = ''reservation:'' @ uid @ '':'' @ rest"
    using pattern_matches[OF assms(1)] by blast
  then have "uid' @ CHR '':'' # s = uid @ CHR '':'' # rest"
    by (simp add: getReservationKey_def)
  with assms have "uid' = uid"
    using first_colon[of "CHR '':''" uid' uid s rest] by (simp add: plain_def)
  moreover have "key_sku (getReservationKey uid s) = s"
    using assms by (intro key_sku_own) (simp_all add: plain_def)
  ultimately show ?thesis
    by (simp add: own_key_def)
qed

lemma own_key_stock: "plain uid \<Longrightarrow> own_key uid (getReservedStockKey s)"
  by (simp add: own_key_def pattern_matches getReservedStockKey_def)

lemma tidy_redis: "redis w' = redis w \<Longrightarrow> tidy w' uid = tidy w uid"
  by (simp add: tidy_def)

lemma tidy_store: "tidy w uid \<Longrightarrow> own_key uid k \<Longrightarrow> tidy (store k e w) uid"
  by (auto simp: tidy_def store_def distinct_update list_all_iff dom_update)

lemma tidy_apply_command:
  "tidy w uid \<Longrightarrow> own_key uid (command_key c) \<Longrightarrow> tidy (apply_command w c) uid"
proof (cases c)
  case (Del k)
  assume "tidy w uid"
  then show ?thesis
    using Del
    by (auto simp: tidy_def apply_command.simps delete_keys distinct_removeAll list_all_iff)
qed (auto simp: apply_command.simps tidy_store split: option.splits)

lemma tidy_foldl:
  "tidy w uid \<Longrightarrow> \<forall>c \<in> set cmds. own_key uid (command_key c) \<Longrightarrow>
   tidy (foldl apply_command w cmds) uid"
  by (induction cmds arbitrary: w) (simp_all add: tidy_apply_command)

lemma tidy_exec:
  assumes "tidy w uid" and "\<forall>c \<in> set cmds. own_key uid (command_key c)"
    and "client_exec w cmds = (r, w')"
  shows "tidy w' uid"
proof -
  obtain ok w1 where rt: "round_trip w = (ok, w1)"
    by (cases "round_trip w") auto
  then have t1: "tidy w1 uid"
    using assms(1) round_trip_redis tidy_redis by blast
  show ?thesis
  proof (cases ok)
    case True
    with rt assms(3) have "w' = (foldl apply_command w1 cmds)\<lparr>journal := journal w1 @ [Exec cmds]\<rparr>"
      by (simp add: client_exec_def)
    then have "redis w' = redis (foldl apply_command w1 cmds)" by simp
    then show ?thesis
      using tidy_foldl[OF t1 assms(2)] tidy_redis by blast
  next
    case False
    with rt assms(3) have "w' = w1" by (simp add: client_exec_def)
    with t1 show ?thesis by simp
  qed
qed

lemma tidy_console [simp]: "tidy (console_error m w) uid = tidy w uid"
  by (simp add: tidy_def)

lemma settle_tidy:
  assumes "tidy w uid" and "own_key uid rk" and "own_key uid ak"
    and "settle label w rk ak remaining taken = (r, w')"
  shows "tidy w' uid"
proof (cases "remaining > 0")
  case True
  obtain r0 w1 where t: "client_ttl w rk = (r0, w1)"
    by (cases "client_ttl w rk") auto
  from client_ttl_sound[OF t] assms(1) have t1: "tidy w1 uid"
    using tidy_redis by blast
  show ?thesis
  proof (cases r0)
    case (Inl e)
    with True t assms(4) t1 show ?thesis
      by (auto simp: settle_def)
  next
    case (Inr ttl)
    obtain r1 w2 where x: "client_exec w1
        [SetEx rk (if ttl > 0 then nat ttl else 600) remaining, DecrBy ak taken] = (r1, w2)"
      by (cases "client_exec w1
        [SetEx rk (if ttl > 0 then nat ttl else 600) remaining, DecrBy ak taken]") auto
    have "tidy w2 uid"
      using tidy_exec[OF t1 _ x] assms(2,3) by simp
    with True t Inr x assms(4) show ?thesis
      by (cases r1) (auto simp: settle_def)
  qed
next
  case False
  obtain r1 w2 where x: "client_exec w [Del rk, DecrBy ak taken] = (r1, w2)"
    by (cases "client_exec w [Del rk, DecrBy ak taken]") auto
  have "tidy w2 uid"
    using tidy_exec[OF assms(1) _ x] assms(2,3) by simp
  with False x assms(4) show ?thesis
    by (cases r1) (auto simp: settle_def)
qed

lemma writers_keep_tidy:
  assumes "tidy w uid" and "plain uid" and "plain uid'" and "CHR '':'' \<notin> set s"
  shows "tidy (snd (reserveStock w uid' s q ttl)) uid"
    and "tidy (snd (cancelReservation w uid' s qo)) uid"
    and "tidy (snd (releaseReservation w uid' s q)) uid"
proof -
  note rk = own_key_reservation[OF assms(2,3,4)] and ak = own_key_stock[OF assms(2), of s]
  obtain r0 w1 where g: "client_get w (getReservationKey uid' s) = (r0, w1)"
    by (cases "client_get w (getReservationKey uid' s)") auto
  from client_get_sound[OF g] assms(1) have t1: "tidy w1 uid"
    using tidy_redis by blast
  show "tidy (snd (reserveStock w uid' s q ttl)) uid"
  proof (cases r0)
    case (Inl e)
    with g t1 show ?thesis by (simp add: reserveStock_def)
  next
    case (Inr existing)
    define cmds where
      "cmds = [SetEx (getReservationKey uid' s) ttl
                 ((case existing of None \<Rightarrow> 0 | Some v \<Rightarrow> v) + q),
               IncrBy (getReservedStockKey s) q, Expire (getReservedStockKey s) ttl]"
    obtain r1 w2 where x: "client_exec w1 cmds = (r1, w2)"
      by (cases "client_exec w1 cmds") auto
    have "tidy w2 uid"
      using tidy_exec[OF t1 _ x] rk ak by (simp add: cmds_def)
    with g Inr x show ?thesis
      by (cases r1) (simp_all add: reserveStock_def Let_def cmds_def)
  qed
  show "tidy (snd (cancelReservation w uid' s qo)) uid"
  proof (cases r0)
    case (Inl e)
    with g t1 show ?thesis by (simp add: cancelReservation_def)
  next
    case (Inr existing)
    show ?thesis
    proof (cases existing)
      case None
      with g Inr t1 show ?thesis by (simp add: cancelReservation_def)
    next
      case (Some h)
      define c where "c = (case qo of None \<Rightarrow> h | Some n \<Rightarrow> min n h)"
      obtain r1 w2 where st: "settle ''Error cancelling reservation:'' w1
          (getReservationKey uid' s) (getReservedStockKey s) (h - c) c = (r1, w2)"
        by (cases "settle ''Error cancelling reservation:'' w1
          (getReservationKey uid' s) (getReservedStockKey s) (h - c) c") auto
      from settle_tidy[OF t1 rk ak st] g Inr Some st show ?thesis
        by (cases r1) (simp_all add: cancelReservation_def Let_def c_def)
    qed
  qed
  show "tidy (snd (releaseReservation w uid' s q)) uid"
  proof (cases r0)
    case (Inl e)
    with g t1 show ?thesis by (simp add: releaseReservation_def)
  next
    case (Inr existing)
    show ?thesis
    proof (cases existing)
      case None
      with g Inr t1 show ?thesis by (simp add: releaseReservation_def)
    next
      case (Some h)
      obtain r1 w2 where st: "settle ''Error releasing reservation:'' w1
          (getReservationKey uid' s) (getReservedStockKey s) (h - q) q = (r1, w2)"
        by (cases "settle ''Error releasing reservation:'' w1
          (getReservationKey uid' s) (getReservedStockKey s) (h - q) q") auto
      from settle_tidy[OF t1 rk ak st] g Inr Some st t1 show ?thesis
        by (cases r1) (simp_all add: releaseReservation_def Let_def)
    qed
  qed
qed

lemma collectReservations_exact:
  "env w = [] \<Longrightarrow>
   collectReservations w keys acc =
     (Inr (acc @ concat (map (\<lambda>k. case lookup w k of None \<Rightarrow> []
                                   | Some e \<Rightarrow> [\<lparr>sku = key_sku k, quantity = val e\<rparr>]) keys)), w)"
proof (induction keys arbitrary: acc)
  case Nil
  show ?case by simp
next
  case (Cons k keys)
  then show ?case
    by (cases "lookup w k") (simp_all add: client_get_quiet)
qed

lemma getUserReservations_exact:
  assumes "env w = []"
  shows "getUserReservations w uid =
     (Inr (map (\<lambda>k. \<lparr>sku = key_sku k, quantity = val (the (lookup w k))\<rparr>)
            (filter (\<lambda>k. lookup w k \<noteq> None \<and> glob (getReservationKey uid ''*'') k)
               (map fst (redis w)))), w)"
proof -
  define keys where
    "keys = filter (\<lambda>k. lookup w k \<noteq> None \<and> glob (getReservationKey uid ''*'') k) (map fst (redis w))"
  have k: "client_keys w (getReservationKey uid ''*'') = (Inr keys, w)"
    using assms by (simp add: client_keys_def round_trip_quiet keys_def)
  have live: "\<forall>k \<in> set keys. lookup w k \<noteq> None"
    by (simp add: keys_def)
  have "concat (map (\<lambda>k. case lookup w k of None \<Rightarrow> []
                         | Some e \<Rightarrow> [\<lparr>sku = key_sku k, quantity = val e\<rparr>]) keys) =
        map (\<lambda>k. \<lparr>sku = key_sku k, quantity = val (the (lookup w k))\<rparr>) keys"
    using live by (induction keys) auto
  with collectReservations_exact[OF assms, of keys "[]"] k
  show ?thesis
    by (simp add: getUserReservations_def keys_def)
qed

lemma cartLines_from:
  "it \<in> set (cartLines w rs) \<Longrightarrow> \<exists>r \<in> set rs. sku it = sku r \<and> quantity it = quantity r"
  by (induction rs) (auto simp: cartLine_def split: sum.splits)

lemma tidy_cart:
  assumes "env w = []" and "tidy w uid" and "getUserCart w uid = (Inr c, w1)"
  shows "distinct (map sku (items c)) \<and>
         (\<forall>it \<in> set (items c). hold_live w uid (sku it) \<and> held w uid (sku it) = quantity it)"
proof -
  define keys where
    "keys = filter (\<lambda>k. lookup w k \<noteq> None \<and> glob (getReservationKey uid ''*'') k) (map fst (redis w))"
  define rs where "rs = map (\<lambda>k. \<lparr>sku = key_sku k, quantity = val (the (lookup w k))\<rparr>) keys"
  have rs: "getUserReservations w uid = (Inr rs, w)"
    using getUserReservations_exact[OF assms(1), of uid] by (simp add: rs_def keys_def)
  from getUserCart_lines[OF rs] assms(3) have it: "items c = cartLines w rs"
    by auto
  have own: "k = getReservationKey uid (key_sku k)" if "k \<in> set keys" for k
    using that assms(2) by (auto simp: tidy_def own_key_def keys_def list_all_iff)
  have dk: "distinct keys"
    using assms(2) by (simp add: tidy_def keys_def)
  have inj: "inj_on key_sku (set keys)"
  proof (rule inj_onI)
    fix a b assume "a \<in> set keys" "b \<in> set keys" "key_sku a = key_sku b"
    then show "a = b" using own[of a] own[of b] by simp
  qed
  have "map sku rs = map key_sku keys"
    by (simp add: rs_def)
  then have drs: "distinct (map sku rs)"
    using dk inj by (simp add: distinct_map)
  have d: "distinct (map sku (items c))"
    by (simp add: it cartLines_sku drs)
  have holds: "hold_live w uid (sku x) \<and> held w uid (sku x) = quantity x" if "x \<in> set (items c)" for x
  proof -
    from cartLines_from[of x w rs] that it
    obtain r where r: "r \<in> set rs" "sku x = sku r" "quantity x = quantity r"
      by auto
    then obtain k where k: "k \<in> set keys" "sku r = key_sku k" "quantity r = val (the (lookup w k))"
      by (auto simp: rs_def)
    have lv: "lookup w k \<noteq> None"
      using k(1) by (simp add: keys_def)
    have "getReservationKey uid (sku x) = k"
      using own[OF k(1)] r(2) k(2) by simp
    with lv r k show ?thesis
      by (auto simp: hold_live_def held_def)
  qed
  show ?thesis
    using d holds by blast
qed

text \<open>
  The conversion on a tidy store. With the backend answering, let \<open>processCheckout\<close>
  succeed on a store that is tidy for the user. Then the cart has one line per sku, each
  backed by a live hold of the user of exactly the line's quantity; exactly one order
  has been appended, with status \<open>'completed'\<close> and the sku, quantity and price of
  every cart line, the price being the product's at the time of the call; for every line
  the stock of the product has gone down by exactly the quantity and the user holds
  nothing on the sku any more. The journal of writes shows the order saved first, then
  every stock decrement in cart order, then every release in cart order.
\<close>

lemma checkout_tidy_store:
  assumes "env w = []" and "tidy w uid" and "processCheckout w uid = (Inr rc, w')"
    and "getUserCart w uid = (Inr c, w1)"
  shows "orders w' = orders w @
           [\<lparr>order_userId = uid, order_items = map orderItem (items c),
             order_totalAmount = totalAmount c, order_status = ''completed''\<rparr>] \<and>
         orderId rc = length (orders w) \<and> receipt_items rc = map orderItem (items c) \<and>
         (\<forall>it \<in> set (items c).
             hold_live w uid (sku it) \<and> held w uid (sku it) = quantity it \<and>
             sku (orderItem it) = sku it \<and> quantity (orderItem it) = quantity it \<and>
             (\<exists>p. getProductBySku w (sku it) = Inr p \<and> price (orderItem it) = product_price p) \<and>
             ledgerStock w' (sku it) = ledgerStock w (sku it) - quantity it \<and>
             held w' uid (sku it) = 0 \<and> \<not> hold_live w' uid (sku it)) \<and>
         journal w' =
           journal w1 @ OrderSaved (length (orders w)) #
             map (\<lambda>it. ProductSaved (sku it) (ledgerStock w (sku it) - quantity it)) (items c) @
             map (\<lambda>it. Exec [Del (getReservationKey uid (sku it)),
                             DecrBy (getReservedStockKey (sku it)) (quantity it)]) (items c)"
proof -
  from tidy_cart[OF assms(1,2,4)]
  have d: "distinct (map sku (items c))"
    and holds: "\<forall>it \<in> set (items c). hold_live w uid (sku it) \<and> held w uid (sku it) = quantity it"
    by blast+
  have snapshot: "sku (orderItem it) = sku it \<and> quantity (orderItem it) = quantity it" for it
    by (simp add: orderItem_def)
  from checkout_conversion[OF assms(1,3,4) d holds] holds snapshot
  show ?thesis by simp
qed

lemma checkout_tidy_store_example:
  "env shop = [] \<and> tidy shop ''u1'' \<and> hold_live shop ''u1'' ''A'' \<and> held shop ''u1'' ''A'' = 5 \<and>
   ledgerStock shop ''A'' = 200 \<and>
   fst (processCheckout shop ''u1'') =
     Inr \<lparr>orderId = 0, receipt_userId = ''u1'',
          receipt_items = [\<lparr>sku = ''A'', quantity = 5, productId = 1, price = 10\<rparr>],
          receipt_totalAmount = 50\<rparr> \<and>
   orders (snd (processCheckout shop ''u1'')) =
     [\<lparr>order_userId = ''u1'',
       order_items = [\<lparr>sku = ''A'', quantity = 5, productId = 1, price = 10\<rparr>],
       order_totalAmount = 50, order_status = ''completed''\<rparr>] \<and>
   ledgerStock (snd (processCheckout shop ''u1'')) ''A'' = 195 \<and>
   held (snd (processCheckout shop ''u1'')) ''u1'' ''A'' = 0 \<and>
   journal (snd (processCheckout shop ''u1'')) =
     [OrderSaved 0, ProductSaved ''A'' 195,
      Exec [Del (getReservationKey ''u1'' ''A''), DecrBy (getReservedStockKey ''A'') 5]]"
proof -
  define c where
    "c = \<lparr>userId = ''u1'',
          items = [\<lparr>sku = ''A'', quantity = 5, productId = 1, price = 10, name = ''gadget'',
                    totalPrice = 50\<rparr>],
          totalItems = 5, totalAmount = 50\<rparr>"
  define rc where
    "rc = \<lparr>orderId = 0, receipt_userId = ''u1'',
          receipt_items = [\<lparr>sku = ''A'', quantity = 5, productId = 1, price = 10\<rparr>],
          receipt_totalAmount = 50\<rparr>"
  define w1 where "w1 = snd (getUserCart shop ''u1'')"
  define w' where "w' = snd (processCheckout shop ''u1'')"
  have q: "env shop = []" and l: "hold_live shop ''u1'' ''A''" and h: "held shop ''u1'' ''A'' = 5"
    and st: "ledgerStock shop ''A'' = 200" and o: "orders shop = []" and j1: "journal w1 = []"
    unfolding w1_def by code_simp+
  have fc: "fst (getUserCart shop ''u1'') = Inr c"
    unfolding c_def by code_simp
  then have cart: "getUserCart shop ''u1'' = (Inr c, w1)"
    by (simp add: prod_eq_iff w1_def)
  have fr: "fst (processCheckout shop ''u1'') = Inr rc"
    unfolding rc_def by code_simp
  then have run: "processCheckout shop ''u1'' = (Inr rc, w')"
    by (simp add: prod_eq_iff w'_def)
  have t: "tidy shop ''u1''"
    by code_simp
  from checkout_tidy_store[OF q t run cart]
  have "orders w' =
     [\<lparr>order_userId = ''u1'',
       order_items = [\<lparr>sku = ''A'', quantity = 5, productId = 1, price = 10\<rparr>],
       order_totalAmount = 50, order_status = ''completed''\<rparr>]"
    and "ledgerStock w' ''A'' = 195" and "held w' ''u1'' ''A'' = 0"
    and "journal w' =
     [OrderSaved 0, ProductSaved ''A'' 195,
      Exec [Del (getReservationKey ''u1'' ''A''), DecrBy (getReservedStockKey ''A'') 5]]"
    by (simp_all add: c_def o st j1 orderItem_def)
  then show ?thesis
    using q t l h st fr unfolding w'_def rc_def by simp
qed


subsection \<open>A sku with a colon\<close>

text \<open>
  Claim C4 fails in the code for a sku that contains a colon. In \<open>colon_cart\<close> the user
  holds 5 of \<open>X\<close> and 5 of \<open>X:Y\<close>, both reserved through \<open>reserveItems\<close>.
  \<open>getUserReservations\<close> reads the sku of both keys as \<open>X\<close>
  (\<open>key.split(':')[2]\<close>), so the cart has two lines of 5 of \<open>X\<close>. The checkout
  succeeds with one order of two lines of \<open>X\<close>; the stock of \<open>X\<close> goes down by 10
  for a hold of 5, and the hold of 5 on \<open>X:Y\<close> stays, with the stock of \<open>X:Y\<close>
  untouched. The outcome is the same when \<open>KEYS\<close> lists the keys in the opposite
  order.
\<close>

theorem checkout_colon_sku_takes_twice:
  "fst (reserveItems colon_shop ''64b7f0c2a1d3e4f5a6b7c8d9''
          [\<lparr>sku = ''X'', quantity = 5\<rparr>, \<lparr>sku = ''X:Y'', quantity = 5\<rparr>] 600) =
     Inr [\<lparr>sku = ''X'', quantity = 5\<rparr>, \<lparr>sku = ''X:Y'', quantity = 5\<rparr>] \<and>
   held colon_cart ''64b7f0c2a1d3e4f5a6b7c8d9'' ''X'' = 5 \<and>
   held colon_cart ''64b7f0c2a1d3e4f5a6b7c8d9'' ''X:Y'' = 5 \<and>
   ledgerStock colon_cart ''X'' = 200 \<and> ledgerStock colon_cart ''X:Y'' = 200 \<and>
   fst (getUserReservations colon_cart ''64b7f0c2a1d3e4f5a6b7c8d9'') =
     Inr [\<lparr>sku = ''X'', quantity = 5\<rparr>, \<lparr>sku = ''X'', quantity = 5\<rparr>] \<and>
   fst (processCheckout colon_cart ''64b7f0c2a1d3e4f5a6b7c8d9'') =
     Inr \<lparr>orderId = 0, receipt_userId = ''64b7f0c2a1d3e4f5a6b7c8d9'',
          receipt_items = [\<lparr>sku = ''X'', quantity = 5, productId = 1, price = 10\<rparr>,
                           \<lparr>sku = ''X'', quantity = 5, productId = 1, price = 10\<rparr>],
          receipt_totalAmount = 100\<rparr> \<and>
   orders (snd (processCheckout colon_cart ''64b7f0c2a1d3e4f5a6b7c8d9'')) =
     [\<lparr>order_userId = ''64b7f0c2a1d3e4f5a6b7c8d9'',
       order_items = [\<lparr>sku = ''X'', quantity = 5, productId = 1, price = 10\<rparr>,
                      \<lparr>sku = ''X'', quantity = 5, productId = 1, price = 10\<rparr>],
       order_totalAmount = 100, order_status = ''completed''\<rparr>] \<and>
   ledgerStock (snd (processCheckout colon_cart ''64b7f0c2a1d3e4f5a6b7c8d9'')) ''X'' = 190 \<and>
   ledgerStock (snd (processCheckout colon_cart ''64b7f0c2a1d3e4f5a6b7c8d9'')) ''X:Y'' = 200 \<and>
   held (snd (processCheckout colon_cart ''64b7f0c2a1d3e4f5a6b7c8d9''))
     ''64b7f0c2a1d3e4f5a6b7c8d9'' ''X'' = 0 \<and>
   held (snd (processCheckout colon_cart ''64b7f0c2a1d3e4f5a6b7c8d9''))
     ''64b7f0c2a1d3e4f5a6b7c8d9'' ''X:Y'' = 5 \<and>
   aggregateReserved (snd (processCheckout colon_cart ''64b7f0c2a1d3e4f5a6b7c8d9'')) ''X:Y'' = 5 \<and>
   fst (getUserReservations colon_cart_reversed ''64b7f0c2a1d3e4f5a6b7c8d9'') =
     Inr [\<lparr>sku = ''X'', quantity = 5\<rparr>, \<lparr>sku = ''X'', quantity = 5\<rparr>] \<and>
   fst (processCheckout colon_cart_reversed ''64b7f0c2a1d3e4f5a6b7c8d9'') =
     fst (processCheckout colon_cart ''64b7f0c2a1d3e4f5a6b7c8d9'') \<and>
   ledgerStock (snd (processCheckout colon_cart_reversed ''64b7f0c2a1d3e4f5a6b7c8d9'')) ''X'' = 190 \<and>
   ledgerStock (snd (processCheckout colon_cart_reversed ''64b7f0c2a1d3e4f5a6b7c8d9'')) ''X:Y''
     = 200 \<and>
   held (snd (processCheckout colon_cart_reversed ''64b7f0c2a1d3e4f5a6b7c8d9''))
     ''64b7f0c2a1d3e4f5a6b7c8d9'' ''X:Y'' = 5"
  by code_simp

end
